theory Spec2Isabelle
  imports Main "HOL-Library.AList" "HOL-Library.Word"
begin

section \<open>The mediator broker (mediator\_server.py)\<close>

text \<open>
  The broker keeps four Python dictionaries.  A dictionary is modelled as an association
  list in insertion order: \<open>d[k] = v\<close> is \<open>AList.update\<close> (in place when the key
  exists, appended otherwise), \<open>del d[k]\<close> is \<open>AList.delete\<close>, \<open>d[k][f] = v\<close> is
  \<open>AList.map_entry\<close>, \<open>d.get(k)\<close> is \<open>map_of\<close> and \<open>k in d\<close> is \<open>has_key\<close>.

  Identifiers are the first eight characters of a UUID, timestamps are clock readings;
  both come from the environment and are parameters of the operations.  Logging and the
  GUI are not modelled.
\<close>

record client_info =
  c_socket :: nat
  c_ip :: string
  c_name :: string
  help_requested :: bool
  session_id :: "string option"
  c_connected_time :: nat

record tech_info =
  t_socket :: nat
  t_ip :: string
  t_name :: string
  assigned_client :: "string option"
  t_connected_time :: nat

record help_request =
  timestamp :: string
  status :: string

record active_session =
  client_id :: string
  tech_id :: string
  start_time :: nat

text \<open>The JSON messages the broker sends.\<close>

datatype msg =
    Welcome_client string
  | Welcome_technician string "(string \<times> string \<times> string \<times> string) list"
  | Heartbeat
  | New_help_request string string string string
  | Help_confirmed
  | Help_cancelled string
  | Control_request string string string
  | Control_approved string string string string
  | Control_denied string string
  | Client_unavailable string
  | Client_disconnected string

datatype party = Client string | Technician string

text \<open>
  What the broker does to its sockets: a \<open>send\<close> on the socket stored for a party,
  with its outcome (\<open>False\<close> when \<open>send\<close> raised), and a \<open>close\<close>.
\<close>

datatype event = Send party msg bool | Close nat

text \<open>
  The broker state: the four dictionaries of \<open>MediatorServer\<close>, and the environment it
  runs against: \<open>outcomes\<close>, the results of the coming socket sends in order (a send
  beyond the list succeeds), and \<open>trace\<close>, the socket operations performed so far.
\<close>

record mediator_server =
  clients :: "(string \<times> client_info) list"
  technicians :: "(string \<times> tech_info) list"
  help_requests :: "(string \<times> help_request) list"
  active_sessions :: "(string \<times> active_session) list"
  outcomes :: "bool list"
  trace :: "event list"

text \<open>A JSON object received by the broker, read with \<open>message.get\<close>.\<close>

record in_msg =
  m_type :: "string option"
  m_name :: "string option"
  m_client_id :: "string option"
  m_tech_id :: "string option"
  m_session_id :: "string option"
  m_approved :: bool

text \<open>The values the environment supplies to a handler: \<open>uuid4()[:8]\<close> and the clock.\<close>

record env =
  uuid :: string
  now :: nat
  now_str :: string

definition has_key :: "'k \<Rightarrow> ('k \<times> 'v) list \<Rightarrow> bool" where
  "has_key k d = (map_of d k \<noteq> None)"

text \<open>Python truthiness of a value that is \<open>None\<close> or a string.\<close>

fun truthy :: "string option \<Rightarrow> bool" where
  "truthy None = False"
| "truthy (Some s) = (s \<noteq> [])"

definition send :: "party \<Rightarrow> msg \<Rightarrow> mediator_server \<Rightarrow> bool \<times> mediator_server" where
  "send p m w =
     (case outcomes w of
        [] \<Rightarrow> (True, w\<lparr>trace := trace w @ [Send p m True]\<rparr>)
      | b # bs \<Rightarrow> (b, w\<lparr>outcomes := bs, trace := trace w @ [Send p m b]\<rparr>))"

definition close :: "nat \<Rightarrow> mediator_server \<Rightarrow> mediator_server" where
  "close sock w = w\<lparr>trace := trace w @ [Close sock]\<rparr>"

text \<open>
  \<open>disconnect_technician\<close>: the loop over \<open>list(self.active_sessions.items())\<close> stops at
  the first session of the technician, which \<open>find\<close> returns.
\<close>

definition disconnect_technician :: "string \<Rightarrow> mediator_server \<Rightarrow> mediator_server" where
  "disconnect_technician tid w =
     (case map_of (technicians w) tid of
        None \<Rightarrow> w
      | Some tech \<Rightarrow>
          (let w1 =
                 (case assigned_client tech of
                    None \<Rightarrow> w
                  | Some ac \<Rightarrow>
                      if ac \<noteq> [] \<and> has_key ac (clients w) then
                        (case find (\<lambda>(sid, session). tech_id session = tid) (active_sessions w) of
                           None \<Rightarrow> w
                         | Some (sid, session) \<Rightarrow>
                             w\<lparr>active_sessions := AList.delete sid (active_sessions w),
                               clients := AList.map_entry ac (\<lambda>c. c\<lparr>session_id := None\<rparr>) (clients w)\<rparr>)
                      else w);
               w2 = close (t_socket tech) w1
           in w2\<lparr>technicians := AList.delete tid (technicians w2)\<rparr>))"

text \<open>
  \<open>broadcast_to_technicians\<close> iterates over a snapshot of the registry; a failed send
  disconnects that technician.
\<close>

fun broadcast_loop ::
  "msg \<Rightarrow> string option \<Rightarrow> (string \<times> tech_info) list \<Rightarrow> mediator_server \<Rightarrow> mediator_server"
where
  "broadcast_loop message exclude_tech [] w = w"
| "broadcast_loop message exclude_tech ((tid, tech) # rest) w =
     (if truthy exclude_tech \<and> Some tid = exclude_tech then
        broadcast_loop message exclude_tech rest w
      else
        (case send (Technician tid) message w of
           (True, w1) \<Rightarrow> broadcast_loop message exclude_tech rest w1
         | (False, w1) \<Rightarrow> broadcast_loop message exclude_tech rest (disconnect_technician tid w1)))"

definition broadcast_to_technicians ::
  "msg \<Rightarrow> string option \<Rightarrow> mediator_server \<Rightarrow> mediator_server" where
  "broadcast_to_technicians message exclude_tech w =
     broadcast_loop message exclude_tech (technicians w) w"

text \<open>
  \<open>disconnect_client\<close>.  The session is looked up with \<open>active_sessions.get\<close> after it
  has been deleted, as in the source.
\<close>

definition disconnect_client :: "string \<Rightarrow> mediator_server \<Rightarrow> mediator_server" where
  "disconnect_client cid w =
     (case map_of (clients w) cid of
        None \<Rightarrow> w
      | Some client \<Rightarrow>
          (let w1 =
                 (case session_id client of
                    None \<Rightarrow> w
                  | Some sid \<Rightarrow>
                      if sid \<noteq> [] \<and> has_key sid (active_sessions w) then
                        (let wa = w\<lparr>active_sessions := AList.delete sid (active_sessions w)\<rparr>;
                             session = map_of (active_sessions wa) sid;
                             tid = map_option tech_id session
                         in case tid of
                              None \<Rightarrow> wa
                            | Some t \<Rightarrow>
                                if has_key t (technicians wa) then
                                  wa\<lparr>technicians :=
                                       AList.map_entry t (\<lambda>x. x\<lparr>assigned_client := None\<rparr>)
                                         (technicians wa)\<rparr>
                                else wa)
                      else w);
               w2 = (if has_key cid (help_requests w1)
                     then w1\<lparr>help_requests := AList.delete cid (help_requests w1)\<rparr> else w1);
               w3 = close (c_socket client) w2;
               w4 = w3\<lparr>clients := AList.delete cid (clients w3)\<rparr>
           in broadcast_to_technicians (Client_disconnected cid) None w4))"


subsection \<open>Registration\<close>

definition handle_client_connection ::
  "env \<Rightarrow> nat \<Rightarrow> string \<Rightarrow> in_msg \<Rightarrow> mediator_server \<Rightarrow> mediator_server" where
  "handle_client_connection e client_socket addr message w =
     (let cid = uuid e;
          client_name = (case m_name message of None \<Rightarrow> ''Client-'' @ addr | Some n \<Rightarrow> n);
          w1 = w\<lparr>clients :=
                   AList.update cid
                     \<lparr>c_socket = client_socket, c_ip = addr, c_name = client_name,
                      help_requested = False, session_id = None, c_connected_time = now e\<rparr>
                     (clients w)\<rparr>
      in case send (Client cid) (Welcome_client cid) w1 of
           (True, w2) \<Rightarrow> w2
         | (False, w2) \<Rightarrow> disconnect_client cid w2)"

definition help_list :: "mediator_server \<Rightarrow> (string \<times> string \<times> string \<times> string) list" where
  "help_list w =
     map (\<lambda>(cid, c). (cid, c_name c, c_ip c,
                       (case map_of (help_requests w) cid of None \<Rightarrow> [] | Some h \<Rightarrow> timestamp h)))
       (filter (\<lambda>(cid, c). help_requested c \<and> \<not> truthy (session_id c)) (clients w))"

definition handle_technician_connection ::
  "env \<Rightarrow> nat \<Rightarrow> string \<Rightarrow> in_msg \<Rightarrow> mediator_server \<Rightarrow> mediator_server" where
  "handle_technician_connection e tech_socket addr message w =
     (let tid = uuid e;
          tech_name = (case m_name message of None \<Rightarrow> ''Tech-'' @ addr | Some n \<Rightarrow> n);
          w1 = w\<lparr>technicians :=
                   AList.update tid
                     \<lparr>t_socket = tech_socket, t_ip = addr, t_name = tech_name,
                      assigned_client = None, t_connected_time = now e\<rparr>
                     (technicians w)\<rparr>
      in case send (Technician tid) (Welcome_technician tid (help_list w1)) w1 of
           (True, w2) \<Rightarrow> w2
         | (False, w2) \<Rightarrow> disconnect_technician tid w2)"

definition handle_connection ::
  "env \<Rightarrow> nat \<Rightarrow> string \<Rightarrow> in_msg \<Rightarrow> mediator_server \<Rightarrow> mediator_server" where
  "handle_connection e sock addr message w =
     (if m_type message = Some ''client_connect'' then
        handle_client_connection e sock addr message w
      else if m_type message = Some ''technician_connect'' then
        handle_technician_connection e sock addr message w
      else close sock w)"

subsection \<open>Message handlers\<close>

definition handle_help_request :: "env \<Rightarrow> string \<Rightarrow> mediator_server \<Rightarrow> mediator_server" where
  "handle_help_request e cid w =
     (case map_of (clients w) cid of
        None \<Rightarrow> w
      | Some client \<Rightarrow>
          (let w1 = w\<lparr>clients :=
                        AList.map_entry cid (\<lambda>c. c\<lparr>help_requested := True\<rparr>) (clients w)\<rparr>;
               w2 = w1\<lparr>help_requests :=
                         AList.update cid \<lparr>timestamp = now_str e, status = ''pending''\<rparr>
                           (help_requests w1)\<rparr>;
               w3 = broadcast_to_technicians
                      (New_help_request cid (c_name client) (c_ip client) (now_str e)) None w2
           in if has_key cid (clients w3) then snd (send (Client cid) Help_confirmed w3) else w3))"

definition handle_cancel_help :: "string \<Rightarrow> mediator_server \<Rightarrow> mediator_server" where
  "handle_cancel_help cid w =
     (if \<not> has_key cid (clients w) then w
      else
        (let w1 = w\<lparr>clients :=
                      AList.map_entry cid (\<lambda>c. c\<lparr>help_requested := False\<rparr>) (clients w)\<rparr>;
             w2 = (if has_key cid (help_requests w1)
                   then w1\<lparr>help_requests := AList.delete cid (help_requests w1)\<rparr> else w1)
         in broadcast_to_technicians (Help_cancelled cid) None w2))"

definition handle_control_request :: "string \<Rightarrow> in_msg \<Rightarrow> mediator_server \<Rightarrow> mediator_server" where
  "handle_control_request tid message w =
     (case m_client_id message of
        None \<Rightarrow> w
      | Some cid \<Rightarrow>
          (case (map_of (clients w) cid, map_of (technicians w) tid) of
             (Some client, Some tech) \<Rightarrow>
               snd (send (Client cid) (Control_request (t_name tech) (t_ip tech) tid) w)
           | _ \<Rightarrow> w))"

definition handle_control_response ::
  "env \<Rightarrow> string \<Rightarrow> in_msg \<Rightarrow> mediator_server \<Rightarrow> mediator_server" where
  "handle_control_response e cid message w =
     (case m_tech_id message of
        None \<Rightarrow> w
      | Some tid \<Rightarrow>
          (case (map_of (technicians w) tid, map_of (clients w) cid) of
             (Some tech, Some client) \<Rightarrow>
               if m_approved message then
                 (let sid = uuid e;
                      w1 = w\<lparr>active_sessions :=
                               AList.update sid
                                 \<lparr>client_id = cid, tech_id = tid, start_time = now e\<rparr>
                                 (active_sessions w)\<rparr>;
                      w2 = w1\<lparr>clients :=
                                AList.map_entry cid (\<lambda>c. c\<lparr>help_requested := False\<rparr>)
                                  (AList.map_entry cid (\<lambda>c. c\<lparr>session_id := Some sid\<rparr>)
                                     (clients w1))\<rparr>;
                      w3 = w2\<lparr>technicians :=
                                AList.map_entry tid (\<lambda>t. t\<lparr>assigned_client := Some cid\<rparr>)
                                  (technicians w2)\<rparr>;
                      w4 = (if has_key cid (help_requests w3)
                            then w3\<lparr>help_requests := AList.delete cid (help_requests w3)\<rparr>
                            else w3);
                      w5 = snd (send (Technician tid)
                                  (Control_approved cid (c_ip client) (c_name client) sid) w4)
                  in broadcast_to_technicians (Client_unavailable cid) (Some tid) w5)
               else
                 snd (send (Technician tid) (Control_denied cid (c_name client)) w)
           | _ \<Rightarrow> w))"

definition handle_end_session :: "string \<Rightarrow> in_msg \<Rightarrow> mediator_server \<Rightarrow> mediator_server" where
  "handle_end_session tid message w =
     (case m_session_id message of
        None \<Rightarrow> w
      | Some sid \<Rightarrow>
          (case map_of (active_sessions w) sid of
             None \<Rightarrow> w
           | Some session \<Rightarrow>
               (let cid = client_id session;
                    w1 = w\<lparr>active_sessions := AList.delete sid (active_sessions w)\<rparr>;
                    w2 = (if has_key cid (clients w1)
                          then w1\<lparr>clients :=
                                    AList.map_entry cid (\<lambda>c. c\<lparr>session_id := None\<rparr>)
                                      (clients w1)\<rparr>
                          else w1)
                in if has_key tid (technicians w2)
                   then w2\<lparr>technicians :=
                             AList.map_entry tid (\<lambda>t. t\<lparr>assigned_client := None\<rparr>)
                               (technicians w2)\<rparr>
                   else w2)))"

text \<open>The dispatch on \<open>message.get('type')\<close>; an unknown type is logged and ignored.\<close>

definition process_client_message ::
  "env \<Rightarrow> string \<Rightarrow> in_msg \<Rightarrow> mediator_server \<Rightarrow> mediator_server" where
  "process_client_message e cid message w =
     (if m_type message = Some ''help_request'' then handle_help_request e cid w
      else if m_type message = Some ''cancel_help'' then handle_cancel_help cid w
      else if m_type message = Some ''control_response'' then
        handle_control_response e cid message w
      else if m_type message = Some ''heartbeat_response'' then w
      else w)"

definition process_technician_message ::
  "string \<Rightarrow> in_msg \<Rightarrow> mediator_server \<Rightarrow> mediator_server" where
  "process_technician_message tid message w =
     (if m_type message = Some ''request_control'' then handle_control_request tid message w
      else if m_type message = Some ''end_session'' then handle_end_session tid message w
      else if m_type message = Some ''heartbeat_response'' then w
      else w)"

subsection \<open>Heartbeat\<close>

text \<open>
  One pass of \<open>heartbeat_checker\<close> after its sleep.  Both loops run over a snapshot of
  the keys; \<open>self.clients[client_id]\<close> on a key that has gone raises inside the
  \<open>try\<close>, which also ends in the disconnect.
\<close>

fun heartbeat_clients :: "string list \<Rightarrow> mediator_server \<Rightarrow> mediator_server" where
  "heartbeat_clients [] w = w"
| "heartbeat_clients (cid # rest) w =
     (if has_key cid (clients w) then
        (case send (Client cid) Heartbeat w of
           (True, w1) \<Rightarrow> heartbeat_clients rest w1
         | (False, w1) \<Rightarrow> heartbeat_clients rest (disconnect_client cid w1))
      else heartbeat_clients rest (disconnect_client cid w))"

fun heartbeat_technicians :: "string list \<Rightarrow> mediator_server \<Rightarrow> mediator_server" where
  "heartbeat_technicians [] w = w"
| "heartbeat_technicians (tid # rest) w =
     (if has_key tid (technicians w) then
        (case send (Technician tid) Heartbeat w of
           (True, w1) \<Rightarrow> heartbeat_technicians rest w1
         | (False, w1) \<Rightarrow> heartbeat_technicians rest (disconnect_technician tid w1))
      else heartbeat_technicians rest (disconnect_technician tid w))"

definition heartbeat_checker :: "mediator_server \<Rightarrow> mediator_server" where
  "heartbeat_checker w =
     (let w1 = heartbeat_clients (map fst (clients w)) w
      in heartbeat_technicians (map fst (technicians w1)) w1)"

subsection \<open>The connection threads\<close>

text \<open>
  Each connection thread (\<open>handle_client_messages\<close>, \<open>handle_technician_messages\<close>)
  loops while its id is registered: a received message is processed, a read timeout sends
  a heartbeat, and a failed read or a failed heartbeat ends in the disconnect.  The
  operations of the broker are the iterations of these loops, the registrations and the
  heartbeat pass, one at a time.
\<close>

datatype op =
    Connection env nat string in_msg
  | Client_message string env in_msg
  | Client_timeout string
  | Client_read_failure string
  | Technician_message string in_msg
  | Technician_timeout string
  | Technician_read_failure string
  | Heartbeat_tick

fun step :: "op \<Rightarrow> mediator_server \<Rightarrow> mediator_server" where
  "step (Connection e sock addr message) w = handle_connection e sock addr message w"
| "step (Client_message cid e message) w =
     (if has_key cid (clients w) then process_client_message e cid message w
      else disconnect_client cid w)"
| "step (Client_timeout cid) w =
     (if has_key cid (clients w) then
        (case send (Client cid) Heartbeat w of
           (True, w1) \<Rightarrow> w1
         | (False, w1) \<Rightarrow> disconnect_client cid w1)
      else disconnect_client cid w)"
| "step (Client_read_failure cid) w = disconnect_client cid w"
| "step (Technician_message tid message) w =
     (if has_key tid (technicians w) then process_technician_message tid message w
      else disconnect_technician tid w)"
| "step (Technician_timeout tid) w =
     (if has_key tid (technicians w) then
        (case send (Technician tid) Heartbeat w of
           (True, w1) \<Rightarrow> w1
         | (False, w1) \<Rightarrow> disconnect_technician tid w1)
      else disconnect_technician tid w)"
| "step (Technician_read_failure tid) w = disconnect_technician tid w"
| "step Heartbeat_tick w = heartbeat_checker w"

fun run :: "op list \<Rightarrow> mediator_server \<Rightarrow> mediator_server" where
  "run [] w = w"
| "run (x # xs) w = run xs (step x w)"

definition initial :: "bool list \<Rightarrow> mediator_server" where
  "initial outs =
     \<lparr>clients = [], technicians = [], help_requests = [], active_sessions = [],
      outcomes = outs, trace = []\<rparr>"


section \<open>The frame stream of the control channel\<close>

text \<open>
  \<open>send_screenshots\<close> (client\_with\_mediator.py) writes \<open>size.to_bytes(4, 'big')\<close> and
  then the payload with \<open>sendall\<close>; \<open>int.to_bytes\<close> raises \<open>OverflowError\<close> when the
  size does not fit four bytes.
\<close>

type_synonym byte = "8 word"

definition to_bytes4 :: "nat \<Rightarrow> byte list option" where
  "to_bytes4 n =
     (if n < 2 ^ 32
      then Some [of_nat (n div 2 ^ 24), of_nat (n div 2 ^ 16), of_nat (n div 2 ^ 8), of_nat n]
      else None)"

definition from_bytes :: "byte list \<Rightarrow> nat" where
  "from_bytes bs = foldl (\<lambda>acc b. acc * 256 + unat b) 0 bs"

definition send_frame :: "byte list \<Rightarrow> byte list option" where
  "send_frame data =
     (case to_bytes4 (length data) of
        None \<Rightarrow> None
      | Some size_bytes \<Rightarrow> Some (size_bytes @ data))"

text \<open>
  What the transport hands to the reader, in order: a chunk of bytes, a timeout or a
  connection error.  \<open>socket.recv(k)\<close> returns at most \<open>k\<close> bytes of the next chunk and
  leaves the rest; at the end of the stream it returns the empty bytes object.
\<close>

datatype delivery = Chunk "byte list" | Timeout | Connection_error

datatype recv_error = Socket_timeout | Socket_connection_error

fun recv :: "nat \<Rightarrow> delivery list \<Rightarrow> (recv_error + byte list) \<times> delivery list" where
  "recv k [] = (Inr [], [])"
| "recv k (Chunk c # ds) =
     (if length c \<le> k then (Inr c, ds) else (Inr (take k c), Chunk (drop k c) # ds))"
| "recv k (Timeout # ds) = (Inl Socket_timeout, ds)"
| "recv k (Connection_error # ds) = (Inl Socket_connection_error, ds)"

text \<open>\<open>_recv_all\<close> (technician\_with\_mediator.py): \<open>None\<close> is Python's \<open>None\<close>.\<close>

function recv_all_loop ::
  "nat \<Rightarrow> byte list \<Rightarrow> delivery list \<Rightarrow> byte list option \<times> delivery list" where
  "recv_all_loop n data ds =
     (if length data < n then
        (case recv (n - length data) ds of
           (Inl e, ds') \<Rightarrow> (None, ds')
         | (Inr packet, ds') \<Rightarrow>
             if packet = [] then (None, ds') else recv_all_loop n (data @ packet) ds')
      else (Some data, ds))"
  by pat_completeness auto
termination
  by (relation "measure (\<lambda>(n, data, ds). n - length data)") (auto simp: neq_Nil_conv)

definition recv_all :: "nat \<Rightarrow> delivery list \<Rightarrow> byte list option \<times> delivery list" where
  "recv_all n ds = recv_all_loop n [] ds"

text \<open>
  The head of one iteration of \<open>_receive_screenshots\<close>: the two \<open>_recv_all\<close> calls with
  their \<open>if not ...: break\<close> tests, up to the bytes handed to \<open>pickle.loads\<close>.
\<close>

definition receive_frame :: "delivery list \<Rightarrow> byte list option \<times> delivery list" where
  "receive_frame ds =
     (case recv_all 4 ds of
        (None, ds1) \<Rightarrow> (None, ds1)
      | (Some size_bytes, ds1) \<Rightarrow>
          if size_bytes = [] then (None, ds1)
          else
            (case recv_all (from_bytes size_bytes) ds1 of
               (None, ds2) \<Rightarrow> (None, ds2)
             | (Some data, ds2) \<Rightarrow> if data = [] then (None, ds2) else (Some data, ds2)))"

section \<open>The control listener of the client agent (client\_with\_mediator.py)\<close>

text \<open>
  The fields of \<open>RemoteControlClientWithMediator\<close> the listener uses, and \<open>actions\<close>, what
  it did to the accepted sockets: closed one, or started the two threads that serve one.
\<close>

datatype action = Close_socket nat | Serve nat

record client_agent =
  control_running :: bool
  technician_socket :: "nat option"
  technician_address :: "(string \<times> nat) option"
  actions :: "action list"

text \<open>One iteration of the loop of \<open>accept_control_connections\<close> whose \<open>accept\<close> returned.\<close>

definition accept_control_connection ::
  "nat \<Rightarrow> string \<times> nat \<Rightarrow> client_agent \<Rightarrow> client_agent" where
  "accept_control_connection tech_socket tech_address a =
     (if technician_socket a \<noteq> None then
        a\<lparr>actions := actions a @ [Close_socket tech_socket]\<rparr>
      else
        a\<lparr>technician_socket := Some tech_socket,
          technician_address := Some tech_address,
          actions := actions a @ [Serve tech_socket]\<rparr>)"

text \<open>\<open>disconnect_technician\<close> of the client agent, called when a serving thread ends.\<close>

definition agent_disconnect_technician :: "client_agent \<Rightarrow> client_agent" where
  "agent_disconnect_technician a =
     (case technician_socket a of
        None \<Rightarrow> a
      | Some s \<Rightarrow>
          a\<lparr>technician_socket := None, technician_address := None,
            actions := actions a @ [Close_socket s]\<rparr>)"

definition stop_control_server :: "client_agent \<Rightarrow> client_agent" where
  "stop_control_server a =
     (let a1 = a\<lparr>control_running := False\<rparr>
      in case technician_socket a1 of
           None \<Rightarrow> a1
         | Some s \<Rightarrow>
             a1\<lparr>technician_socket := None, technician_address := None,
                actions := actions a1 @ [Close_socket s]\<rparr>)"

text \<open>
  \<open>start_control_server\<close>.  The flag is set only when the listening socket was created:
  \<open>listening\<close> is False when \<open>create_secure_server_socket\<close> or \<open>listen\<close> raises, and the
  exception handler leaves the fields as they were.
\<close>

definition start_control_server :: "bool \<Rightarrow> client_agent \<Rightarrow> client_agent" where
  "start_control_server listening a =
     (if control_running a then a
      else if listening then a\<lparr>control_running := True\<rparr>
      else a)"

text \<open>
  What happens to the agent: the listener accepts a connection (the loop runs while
  \<open>control_running\<close>), a serving thread ends, the server is started or stopped.
\<close>

datatype agent_event =
    Incoming nat "string \<times> nat"
  | Technician_gone
  | Start_server bool
  | Stop_server

fun agent_step :: "agent_event \<Rightarrow> client_agent \<Rightarrow> client_agent" where
  "agent_step (Incoming s addr) a =
     (if control_running a then accept_control_connection s addr a else a)"
| "agent_step Technician_gone a = agent_disconnect_technician a"
| "agent_step (Start_server listening) a = start_control_server listening a"
| "agent_step Stop_server a = stop_control_server a"

fun agent_run :: "agent_event list \<Rightarrow> client_agent \<Rightarrow> client_agent" where
  "agent_run [] a = a"
| "agent_run (e # es) a = agent_run es (agent_step e a)"

definition agent_initial :: client_agent where
  "agent_initial =
     \<lparr>control_running = False, technician_socket = None, technician_address = None,
      actions = []\<rparr>"

text \<open>The sockets being served after a list of actions: served and not closed since.\<close>

fun held :: "action list \<Rightarrow> nat set" where
  "held [] = {}"
| "held (Serve s # acts) = (if Close_socket s \<in> set acts then held acts else insert s (held acts))"
| "held (Close_socket s # acts) = held acts"


section \<open>Example runs\<close>

definition message :: "string \<Rightarrow> in_msg" where
  "message ty =
     \<lparr>m_type = Some ty, m_name = None, m_client_id = None, m_tech_id = None,
      m_session_id = None, m_approved = False\<rparr>"

definition environment :: "string \<Rightarrow> env" where
  "environment u = \<lparr>uuid = u, now = 0, now_str = ''12:00''\<rparr>"

text \<open>A client and two technicians register.\<close>

definition register_ops :: "op list" where
  "register_ops =
     [Connection (environment ''c0000001'') 1 ''10.0.0.1'' (message ''client_connect''),
      Connection (environment ''t0000001'') 2 ''10.0.0.2'' (message ''technician_connect''),
      Connection (environment ''t0000002'') 3 ''10.0.0.3'' (message ''technician_connect'')]"

text \<open>The client approves a technician; the session gets the given id.\<close>

definition approve :: "string \<Rightarrow> string \<Rightarrow> string \<Rightarrow> op" where
  "approve cid tid sid =
     Client_message cid (environment sid)
       ((message ''control_response'')\<lparr>m_tech_id := Some tid, m_approved := True\<rparr>)"

definition session_ops :: "op list" where
  "session_ops = register_ops @ [approve ''c0000001'' ''t0000001'' ''s0000001'']"

definition end_session_msg :: "string \<Rightarrow> in_msg" where
  "end_session_msg sid = (message ''end_session'')\<lparr>m_session_id := Some sid\<rparr>"

section \<open>Invariants of the broker state\<close>

text \<open>No client entry has both \<open>help_requested\<close> and a \<open>session_id\<close>.\<close>

definition exclusive :: "mediator_server \<Rightarrow> bool" where
  "exclusive w = (\<forall>(cid, c) \<in> set (clients w). \<not> (help_requested c \<and> session_id c \<noteq> None))"

text \<open>No two active sessions have the same client, and no two the same technician.\<close>

definition no_shared :: "mediator_server \<Rightarrow> bool" where
  "no_shared w =
     (distinct (map (\<lambda>(sid, s). client_id s) (active_sessions w)) \<and>
      distinct (map (\<lambda>(sid, s). tech_id s) (active_sessions w)))"

text \<open>
  \<open>shrinks w w'\<close>: from \<open>w\<close> to \<open>w'\<close> client entries were only removed or had their
  \<open>session_id\<close> reset, and sessions were only removed.  Every disconnect and every
  broadcast is of this kind.
\<close>

definition shrinks :: "mediator_server \<Rightarrow> mediator_server \<Rightarrow> bool" where
  "shrinks w w' =
     ((\<forall>(cid, c') \<in> set (clients w').
         \<exists>c. (cid, c) \<in> set (clients w) \<and> (c' = c \<or> c' = c\<lparr>session_id := None\<rparr>)) \<and>
      (\<exists>P. active_sessions w' = filter P (active_sessions w)))"

text \<open>
  Conditions on the next operation: a help request comes only from a client that is not in
  a session; an approval pairs only a client and a technician that no active session
  refers to.
\<close>

fun no_help_in_session :: "op \<Rightarrow> mediator_server \<Rightarrow> bool" where
  "no_help_in_session (Client_message cid e m) w =
     (m_type m = Some ''help_request'' \<longrightarrow>
        (case map_of (clients w) cid of None \<Rightarrow> True | Some c \<Rightarrow> session_id c = None))"
| "no_help_in_session _ w = True"

fun approval_unpaired :: "op \<Rightarrow> mediator_server \<Rightarrow> bool" where
  "approval_unpaired (Client_message cid e m) w =
     (m_type m = Some ''control_response'' \<and> m_approved m \<longrightarrow>
        list_all (\<lambda>(sid, s). client_id s \<noteq> cid \<and> Some (tech_id s) \<noteq> m_tech_id m)
          (active_sessions w))"
| "approval_unpaired _ w = True"

text \<open>A run in which every operation meets the condition in the state it is applied to.\<close>

fun guarded :: "(op \<Rightarrow> mediator_server \<Rightarrow> bool) \<Rightarrow> op list \<Rightarrow> mediator_server \<Rightarrow> bool" where
  "guarded g [] w = True"
| "guarded g (x # xs) w = (g x w \<and> guarded g xs (step x w))"

section \<open>Socket operations of a step\<close>

text \<open>The socket operations performed between two states of one run.\<close>

definition events_since :: "mediator_server \<Rightarrow> mediator_server \<Rightarrow> event list" where
  "events_since w w' = drop (length (trace w)) (trace w')"

text \<open>
  \<open>drops_failed w w'\<close>: the trace has only grown, every technician to whom a send failed in
  between is not registered in \<open>w'\<close>, and no technician was added.
\<close>

definition drops_failed :: "mediator_server \<Rightarrow> mediator_server \<Rightarrow> bool" where
  "drops_failed w w' =
     ((\<exists>es. trace w' = trace w @ es \<and>
          (\<forall>t m. Send (Technician t) m False \<in> set es \<longrightarrow> \<not> has_key t (technicians w'))) \<and>
      (\<forall>t. has_key t (technicians w') \<longrightarrow> has_key t (technicians w)))"

text \<open>The registered client and technicians, with the second of the coming sends failing.\<close>

definition two_technicians :: mediator_server where
  "two_technicians = (run register_ops (initial [])) \<lparr>outcomes := [True, False]\<rparr>"

text \<open>
  The technicians to whom a send failed, in the order of the failures, and the socket
  operations that are a \<open>close\<close>.
\<close>

fun failed_technicians :: "event list \<Rightarrow> string list" where
  "failed_technicians [] = []"
| "failed_technicians (Send (Technician t) m False # es) = t # failed_technicians es"
| "failed_technicians (e # es) = failed_technicians es"

fun is_close :: "event \<Rightarrow> bool" where
  "is_close (Close s) = True"
| "is_close (Send p m b) = False"

text \<open>The four dictionaries of the broker.\<close>

definition dictionaries ::
  "mediator_server \<Rightarrow>
     (string \<times> client_info) list \<times> (string \<times> tech_info) list \<times>
     (string \<times> help_request) list \<times> (string \<times> active_session) list" where
  "dictionaries w = (clients w, technicians w, help_requests w, active_sessions w)"

text \<open>
  \<open>same_as_read_failures w w'\<close>: between \<open>w\<close> and \<open>w'\<close> the dictionaries have changed,
  and sockets have been closed, exactly as if the connection thread of each technician to
  whom a send failed in between had had a failed read, in the order of the failures
  (\<open>Technician_read_failure\<close>, which is \<open>disconnect_technician\<close>).
\<close>

definition same_as_read_failures :: "mediator_server \<Rightarrow> mediator_server \<Rightarrow> bool" where
  "same_as_read_failures w w' =
     (let failures = map Technician_read_failure (failed_technicians (events_since w w'))
      in dictionaries w' = dictionaries (run failures w) \<and>
         filter is_close (events_since w w') = events_since w (run failures w))"

text \<open>
  The client is in a session with the first technician, and the next send fails.
\<close>

definition session_send_fails :: mediator_server where
  "session_send_fails = (run session_ops (initial [])) \<lparr>outcomes := [False]\<rparr>"

section \<open>Approving a control request\<close>













section \<open>Dictionaries, sends and the disconnect of a technician\<close>


lemma has_key_delete: "has_key k (AList.delete k' al) = (k \<noteq> k' \<and> has_key k al)"
  by (simp add: has_key_def delete_conv')

lemma has_key_map_entry: "has_key k (AList.map_entry k' f al) = has_key k al"
  by (simp add: has_key_def map_of_map_entry split: option.splits)

lemma has_key_iff: "has_key k al = (k \<in> fst ` set al)"
  by (simp add: has_key_def map_of_eq_None_iff)

lemma send_fields:
  "send p m w = (b, w') \<Longrightarrow>
     clients w' = clients w \<and> technicians w' = technicians w \<and>
     help_requests w' = help_requests w \<and> active_sessions w' = active_sessions w \<and>
     trace w' = trace w @ [Send p m b]"
  by (auto simp: send_def split: list.splits)

lemma close_fields:
  "clients (close s w) = clients w" "technicians (close s w) = technicians w"
  "help_requests (close s w) = help_requests w" "active_sessions (close s w) = active_sessions w"
  "outcomes (close s w) = outcomes w" "trace (close s w) = trace w @ [Close s]"
  by (simp_all add: close_def)

lemma technicians_disconnect_technician:
  "technicians (disconnect_technician tid w) = AList.delete tid (technicians w)"
  by (auto simp: disconnect_technician_def Let_def close_fields has_key_iff map_of_eq_None_iff
      split: option.splits prod.splits)

section \<open>Ending a session that is not there\<close>

text \<open>
  C6. An \<open>end_session\<close> message whose session id is not a key of \<open>active_sessions\<close>
  changes nothing: \<open>handle_end_session\<close> returns the broker state it was given (the four
  dictionaries, and no socket is touched), and the model has no failing branch there.
\<close>

theorem end_session_unknown_id:
  "m_session_id msg = Some sid \<Longrightarrow> \<not> has_key sid (active_sessions w) \<Longrightarrow>
   handle_end_session tid msg w = w"
  by (simp add: handle_end_session_def has_key_def)

theorem end_session_unknown_id_witness:
  "m_session_id (end_session_msg ''s0000009'') = Some ''s0000009'' \<and>
   \<not> has_key ''s0000009'' (active_sessions (run session_ops (initial []))) \<and>
   active_sessions (run session_ops (initial [])) \<noteq> [] \<and>
   handle_end_session ''t0000001'' (end_session_msg ''s0000009'') (run session_ops (initial []))
     = run session_ops (initial [])"
proof -
  have a: "m_session_id (end_session_msg ''s0000009'') = Some ''s0000009''"
    by (simp add: end_session_msg_def message_def)
  have b: "\<not> has_key ''s0000009'' (active_sessions (run session_ops (initial [])))"
    by code_simp
  have c: "active_sessions (run session_ops (initial [])) \<noteq> []"
    by code_simp
  from a b c end_session_unknown_id [OF a b, of "''t0000001''"] show ?thesis by blast
qed

section \<open>Shrinking steps\<close>

lemma shrinks_refl: "shrinks w w"
  unfolding shrinks_def by (auto intro: exI[of _ "\<lambda>_. True"])

lemma shrinks_trans: "shrinks a b \<Longrightarrow> shrinks b c \<Longrightarrow> shrinks a c"
  unfolding shrinks_def
  apply (rule conjI)
   apply clarsimp
   apply (drule (1) bspec, clarsimp)
   apply (drule (1) bspec, clarsimp)
   apply (erule disjE; erule disjE; force)
  apply (elim conjE exE)
  subgoal for P Q by (rule exI[of _ "\<lambda>x. P x \<and> Q x"]) simp
  done

lemma set_map_entry:
  "x \<in> set (AList.map_entry k f al) \<Longrightarrow>
     x \<in> set al \<or> (\<exists>v. (k, v) \<in> set al \<and> x = (k, f v))"
  by (induction al) (auto split: if_splits)

lemma set_update_alist: "x \<in> set (AList.update k v al) \<Longrightarrow> x = (k, v) \<or> x \<in> set al"
  by (induction al) (auto split: if_splits)


lemma shrinks_disconnect_technician: "shrinks w (disconnect_technician tid w)"
  unfolding shrinks_def disconnect_technician_def Let_def
  apply (rule conjI)
   apply (auto simp: close_fields split: option.splits dest!: set_map_entry)[1]
  apply (auto simp: close_fields AList.delete_eq split: option.splits intro: exI[of _ "\<lambda>_. True"])
  done

lemma shrinks_send: "send p m w = (b, w') \<Longrightarrow> shrinks w w'"
  by (drule send_fields) (auto simp: shrinks_def intro: exI[of _ "\<lambda>_. True"])

lemma shrinks_broadcast_loop: "shrinks w (broadcast_loop m ex snap w)"
proof (induction snap arbitrary: w)
  case Nil
  show ?case by (simp add: shrinks_refl)
next
  case (Cons a snap)
  obtain tid tech where a: "a = (tid, tech)" by (cases a)
  obtain b w1 where s: "send (Technician tid) m w = (b, w1)" by (cases "send (Technician tid) m w")
  show ?case
    using Cons.IH[of w] Cons.IH[of w1] Cons.IH[of "disconnect_technician tid w1"]
      shrinks_send[OF s] shrinks_disconnect_technician[of w1 tid]
    by (cases b; simp add: a s; blast intro: shrinks_trans)
qed

lemma exclusive_shrinks: "exclusive w \<Longrightarrow> shrinks w w' \<Longrightarrow> exclusive w'"
  unfolding exclusive_def shrinks_def by fastforce

lemma no_shared_shrinks: "no_shared w \<Longrightarrow> shrinks w w' \<Longrightarrow> no_shared w'"
  unfolding no_shared_def shrinks_def by (auto simp: distinct_map_filter)


lemma set_map_entry_first:
  "x \<in> set (AList.map_entry k f al) \<Longrightarrow>
     x \<in> set al \<or> (\<exists>v. map_of al k = Some v \<and> x = (k, f v))"
  by (induction al) (auto split: if_splits)

lemma shrinks_fields:
  "clients w' = clients w \<Longrightarrow> active_sessions w' = active_sessions w \<Longrightarrow> shrinks w w'"
  by (auto simp: shrinks_def intro: exI[of _ "\<lambda>_. True"])

lemma shrinks_broadcast: "shrinks w (broadcast_to_technicians m ex w)"
  by (simp add: broadcast_to_technicians_def shrinks_broadcast_loop)

lemma shrinks_snd_send: "shrinks w (snd (send p m w))"
  by (cases "send p m w") (auto dest: shrinks_send)

lemma shrinks_disconnect_client: "shrinks w (disconnect_client cid w)"
  unfolding disconnect_client_def Let_def
  apply (simp add: shrinks_refl split: option.splits)
  apply (intro conjI impI allI; rule shrinks_trans[OF _ shrinks_broadcast])
        apply (auto simp: shrinks_def close_fields AList.delete_eq intro: exI[of _ "\<lambda>_. True"])
  done

lemma shrinks_handle_end_session: "shrinks w (handle_end_session tid msg w)"
  unfolding handle_end_session_def Let_def
  by (auto simp: shrinks_def AList.delete_eq split: option.splits dest!: set_map_entry
      intro: exI[of _ "\<lambda>_. True"])

lemma shrinks_handle_control_request: "shrinks w (handle_control_request tid msg w)"
  unfolding handle_control_request_def
  by (auto simp: shrinks_refl shrinks_snd_send split: option.splits)

lemma shrinks_handle_technician_connection:
  "shrinks w (handle_technician_connection e s a msg w)"
proof -
  let ?w1 = "w\<lparr>technicians :=
                   AList.update (uuid e)
                     \<lparr>t_socket = s, t_ip = a,
                      t_name = (case m_name msg of None \<Rightarrow> ''Tech-'' @ a | Some n \<Rightarrow> n),
                      assigned_client = None, t_connected_time = now e\<rparr>
                     (technicians w)\<rparr>"
  obtain b w2 where s: "send (Technician (uuid e)) (Welcome_technician (uuid e) (help_list ?w1)) ?w1 = (b, w2)"
    by (cases "send (Technician (uuid e)) (Welcome_technician (uuid e) (help_list ?w1)) ?w1")
  have 1: "shrinks w ?w1" by (rule shrinks_fields) simp_all
  have 2: "shrinks ?w1 w2" using s by (rule shrinks_send)
  have 3: "shrinks w2 (disconnect_technician (uuid e) w2)" by (rule shrinks_disconnect_technician)
  show ?thesis
    unfolding handle_technician_connection_def Let_def s
    using 1 2 3 by (cases b; simp; blast intro: shrinks_trans)
qed

lemma shrinks_heartbeat_clients: "shrinks w (heartbeat_clients ks w)"
proof (induction ks arbitrary: w)
  case Nil
  show ?case by (simp add: shrinks_refl)
next
  case (Cons cid ks)
  obtain b w1 where s: "send (Client cid) Heartbeat w = (b, w1)" by (cases "send (Client cid) Heartbeat w")
  show ?case
    using Cons.IH[of w1] Cons.IH[of "disconnect_client cid w1"] Cons.IH[of "disconnect_client cid w"]
      shrinks_send[OF s] shrinks_disconnect_client[of w1 cid] shrinks_disconnect_client[of w cid]
    by (cases b; simp add: s; blast intro: shrinks_trans)
qed

lemma shrinks_heartbeat_technicians: "shrinks w (heartbeat_technicians ks w)"
proof (induction ks arbitrary: w)
  case Nil
  show ?case by (simp add: shrinks_refl)
next
  case (Cons tid ks)
  obtain b w1 where s: "send (Technician tid) Heartbeat w = (b, w1)"
    by (cases "send (Technician tid) Heartbeat w")
  show ?case
    using Cons.IH[of w1] Cons.IH[of "disconnect_technician tid w1"]
      Cons.IH[of "disconnect_technician tid w"]
      shrinks_send[OF s] shrinks_disconnect_technician[of w1 tid]
      shrinks_disconnect_technician[of w tid]
    by (cases b; simp add: s; blast intro: shrinks_trans)
qed

lemma shrinks_heartbeat_checker: "shrinks w (heartbeat_checker w)"
  unfolding heartbeat_checker_def Let_def
  by (blast intro: shrinks_trans shrinks_heartbeat_clients shrinks_heartbeat_technicians)

lemma exclusive_map_entry:
  assumes "exclusive w" "clients w' = AList.map_entry cid f (clients w)"
    and "\<And>c. map_of (clients w) cid = Some c \<Longrightarrow> \<not> (help_requested (f c) \<and> session_id (f c) \<noteq> None)"
  shows "exclusive w'"
  using assms unfolding exclusive_def by (auto dest!: set_map_entry_first)

lemma exclusive_update:
  assumes "exclusive w" "clients w' = AList.update cid c (clients w)"
    and "\<not> (help_requested c \<and> session_id c \<noteq> None)"
  shows "exclusive w'"
  using assms unfolding exclusive_def by (auto dest!: set_update_alist)

lemma no_shared_same:
  "no_shared w \<Longrightarrow> active_sessions w' = active_sessions w \<Longrightarrow> no_shared w'"
  by (simp add: no_shared_def)

lemma distinct_map_update:
  "distinct (map f al) \<Longrightarrow> f (k, v) \<notin> f ` set al \<Longrightarrow> distinct (map f (AList.update k v al))"
proof (induction al)
  case Nil
  then show ?case by simp
next
  case (Cons p ps)
  show ?case
  proof (cases "fst p = k")
    case True
    with Cons.prems show ?thesis by auto
  next
    case False
    have "f p \<notin> f ` set (AList.update k v ps)"
    proof
      assume "f p \<in> f ` set (AList.update k v ps)"
      then obtain x where x: "x \<in> set (AList.update k v ps)" "f p = f x" by auto
      from x(1) have "x = (k, v) \<or> x \<in> set ps" by (rule set_update_alist)
      with x(2) Cons.prems show False by auto
    qed
    with Cons False show ?thesis by auto
  qed
qed

text \<open>The handlers that do more than shrink: a local update, then sends and broadcasts.\<close>

lemma handle_client_connection_shape:
  "\<exists>mid c. clients mid = AList.update (uuid e) c (clients w) \<and> \<not> help_requested c \<and>
      session_id c = None \<and> active_sessions mid = active_sessions w \<and>
      shrinks mid (handle_client_connection e s a msg w)"
proof -
  let ?c = "\<lparr>c_socket = s, c_ip = a,
             c_name = (case m_name msg of None \<Rightarrow> ''Client-'' @ a | Some n \<Rightarrow> n),
             help_requested = False, session_id = None, c_connected_time = now e\<rparr>"
  let ?w1 = "w\<lparr>clients := AList.update (uuid e) ?c (clients w)\<rparr>"
  obtain b w2 where s: "send (Client (uuid e)) (Welcome_client (uuid e)) ?w1 = (b, w2)"
    by (cases "send (Client (uuid e)) (Welcome_client (uuid e)) ?w1")
  have 2: "shrinks ?w1 w2" using s by (rule shrinks_send)
  have 3: "shrinks w2 (disconnect_client (uuid e) w2)" by (rule shrinks_disconnect_client)
  have "shrinks ?w1 (handle_client_connection e s a msg w)"
    unfolding handle_client_connection_def Let_def s
    using 2 3 by (cases b; simp; blast intro: shrinks_trans)
  then show ?thesis
    by (intro exI[of _ ?w1] exI[of _ ?c]) simp
qed

lemma handle_help_request_shape:
  "handle_help_request e cid w = w \<and> \<not> has_key cid (clients w) \<or>
   (\<exists>mid. clients mid = AList.map_entry cid (\<lambda>c. c\<lparr>help_requested := True\<rparr>) (clients w) \<and>
      active_sessions mid = active_sessions w \<and> shrinks mid (handle_help_request e cid w))"
proof (cases "map_of (clients w) cid")
  case None
  then show ?thesis by (simp add: handle_help_request_def has_key_def)
next
  case (Some client)
  let ?w2 = "w\<lparr>clients := AList.map_entry cid (\<lambda>c. c\<lparr>help_requested := True\<rparr>) (clients w),
               help_requests := AList.update cid \<lparr>timestamp = now_str e, status = ''pending''\<rparr>
                           (help_requests w)\<rparr>"
  let ?w3 = "broadcast_to_technicians
                      (New_help_request cid (c_name client) (c_ip client) (now_str e)) None ?w2"
  have "shrinks ?w2 ?w3" by (rule shrinks_broadcast)
  moreover have "shrinks ?w3 (snd (send (Client cid) Help_confirmed ?w3))" by (rule shrinks_snd_send)
  ultimately have "shrinks ?w2 (handle_help_request e cid w)"
    unfolding handle_help_request_def Let_def Some
    by (auto intro: shrinks_trans)
  then show ?thesis
    by (intro disjI2 exI[of _ ?w2]) simp
qed

lemma map_entry_absent: "k \<notin> fst ` set al \<Longrightarrow> AList.map_entry k f al = al"
  by (induction al) auto

lemma handle_cancel_help_shape:
  "\<exists>mid. clients mid = AList.map_entry cid (\<lambda>c. c\<lparr>help_requested := False\<rparr>) (clients w) \<and>
      active_sessions mid = active_sessions w \<and> shrinks mid (handle_cancel_help cid w)"
proof (cases "has_key cid (clients w)")
  case False
  then have "AList.map_entry cid (\<lambda>c. c\<lparr>help_requested := False\<rparr>) (clients w) = clients w"
    by (simp add: map_entry_absent has_key_iff)
  with False show ?thesis
    by (intro exI[of _ w]) (simp add: handle_cancel_help_def shrinks_refl)
next
  case True
  let ?w1 = "w\<lparr>clients := AList.map_entry cid (\<lambda>c. c\<lparr>help_requested := False\<rparr>) (clients w)\<rparr>"
  let ?w2 = "(if has_key cid (help_requests ?w1)
                   then ?w1\<lparr>help_requests := AList.delete cid (help_requests ?w1)\<rparr> else ?w1)"
  have "shrinks ?w2 (handle_cancel_help cid w)"
    unfolding handle_cancel_help_def Let_def using True by (simp add: shrinks_broadcast)
  then show ?thesis
    by (intro exI[of _ ?w2]) simp
qed

lemma map_entry_twice:
  "AList.map_entry k f (AList.map_entry k g al) = AList.map_entry k (f \<circ> g) al"
  by (induction al) auto

lemma handle_control_response_shape:
  "shrinks w (handle_control_response e cid msg w) \<or>
   (m_approved msg \<and>
    (\<exists>tid mid. m_tech_id msg = Some tid \<and>
       clients mid =
         AList.map_entry cid (\<lambda>c. c\<lparr>session_id := Some (uuid e), help_requested := False\<rparr>)
           (clients w) \<and>
       active_sessions mid =
         AList.update (uuid e) \<lparr>client_id = cid, tech_id = tid, start_time = now e\<rparr>
           (active_sessions w) \<and>
       shrinks mid (handle_control_response e cid msg w)))"
proof (cases "m_tech_id msg")
  case None
  then show ?thesis by (simp add: handle_control_response_def shrinks_refl)
next
  case (Some tid)
  show ?thesis
  proof (cases "map_of (technicians w) tid")
    case None
    with Some show ?thesis by (simp add: handle_control_response_def shrinks_refl)
  next
    case tech: (Some tech)
    show ?thesis
    proof (cases "map_of (clients w) cid")
      case None
      with Some tech show ?thesis by (simp add: handle_control_response_def shrinks_refl)
    next
      case client: (Some client)
      show ?thesis
      proof (cases "m_approved msg")
        case False
        with Some tech client show ?thesis
          by (simp add: handle_control_response_def shrinks_snd_send)
      next
        case True
        let ?w3 = "w\<lparr>active_sessions :=
                       AList.update (uuid e) \<lparr>client_id = cid, tech_id = tid, start_time = now e\<rparr>
                         (active_sessions w),
                     clients :=
                       AList.map_entry cid (\<lambda>c. c\<lparr>help_requested := False\<rparr>)
                         (AList.map_entry cid (\<lambda>c. c\<lparr>session_id := Some (uuid e)\<rparr>) (clients w)),
                     technicians :=
                       AList.map_entry tid (\<lambda>t. t\<lparr>assigned_client := Some cid\<rparr>) (technicians w)\<rparr>"
        let ?w4 = "(if has_key cid (help_requests ?w3)
                    then ?w3\<lparr>help_requests := AList.delete cid (help_requests ?w3)\<rparr> else ?w3)"
        let ?w5 = "snd (send (Technician tid)
                      (Control_approved cid (c_ip client) (c_name client) (uuid e)) ?w4)"
        have eq: "handle_control_response e cid msg w =
                    broadcast_to_technicians (Client_unavailable cid) (Some tid) ?w5"
          using Some tech client True by (simp add: handle_control_response_def Let_def)
        have "shrinks ?w4 ?w5" by (rule shrinks_snd_send)
        then have sh: "shrinks ?w4 (handle_control_response e cid msg w)"
          unfolding eq by (blast intro: shrinks_trans shrinks_broadcast)
        have cl: "clients ?w4 =
             AList.map_entry cid (\<lambda>c. c\<lparr>session_id := Some (uuid e), help_requested := False\<rparr>)
               (clients w)"
          by (simp add: map_entry_twice comp_def)
        have se: "active_sessions ?w4 =
             AList.update (uuid e) \<lparr>client_id = cid, tech_id = tid, start_time = now e\<rparr>
               (active_sessions w)"
          by simp
        from True Some cl se sh show ?thesis by blast
      qed
    qed
  qed
qed

lemma exclusive_handle_control_response:
  assumes "exclusive w" shows "exclusive (handle_control_response e cid msg w)"
  using handle_control_response_shape[of w e cid msg]
proof (elim disjE conjE exE)
  assume "shrinks w (handle_control_response e cid msg w)"
  with assms show ?thesis by (rule exclusive_shrinks)
next
  fix tid mid
  assume cl: "clients mid =
         AList.map_entry cid (\<lambda>c. c\<lparr>session_id := Some (uuid e), help_requested := False\<rparr>)
           (clients w)"
    and sh: "shrinks mid (handle_control_response e cid msg w)"
  from assms cl have "exclusive mid" by (rule exclusive_map_entry) simp
  then show ?thesis using sh by (rule exclusive_shrinks)
qed

lemma exclusive_handle_cancel_help:
  assumes "exclusive w" shows "exclusive (handle_cancel_help cid w)"
proof -
  obtain mid where cl: "clients mid = AList.map_entry cid (\<lambda>c. c\<lparr>help_requested := False\<rparr>) (clients w)"
    and sh: "shrinks mid (handle_cancel_help cid w)"
    using handle_cancel_help_shape[of cid w] by blast
  from assms cl have "exclusive mid" by (rule exclusive_map_entry) simp
  then show ?thesis using sh by (rule exclusive_shrinks)
qed

lemma exclusive_handle_help_request:
  assumes "exclusive w"
    and "\<And>c. map_of (clients w) cid = Some c \<Longrightarrow> session_id c = None"
  shows "exclusive (handle_help_request e cid w)"
  using handle_help_request_shape[of e cid w]
proof (elim disjE conjE exE)
  assume "handle_help_request e cid w = w"
  with assms show ?thesis by simp
next
  fix mid
  assume cl: "clients mid = AList.map_entry cid (\<lambda>c. c\<lparr>help_requested := True\<rparr>) (clients w)"
    and sh: "shrinks mid (handle_help_request e cid w)"
  from assms(1) cl have "exclusive mid" by (rule exclusive_map_entry) (simp add: assms(2))
  then show ?thesis using sh by (rule exclusive_shrinks)
qed

lemma exclusive_handle_connection:
  assumes "exclusive w" shows "exclusive (handle_connection e s a msg w)"
proof -
  obtain mid c where cl: "clients mid = AList.update (uuid e) c (clients w)"
    and c: "\<not> help_requested c" and sh: "shrinks mid (handle_client_connection e s a msg w)"
    using handle_client_connection_shape[of e w s a msg] by blast
  from assms cl have "exclusive mid" by (rule exclusive_update) (simp add: c)
  then have 1: "exclusive (handle_client_connection e s a msg w)" using sh by (rule exclusive_shrinks)
  have 2: "exclusive (handle_technician_connection e s a msg w)"
    using assms shrinks_handle_technician_connection by (rule exclusive_shrinks)
  have 3: "exclusive (close s w)"
    using assms by (simp add: exclusive_def close_fields)
  show ?thesis unfolding handle_connection_def using 1 2 3 by simp
qed

lemma shrinks_timeout_client:
  "shrinks w (case send (Client cid) Heartbeat w of (True, w1) \<Rightarrow> w1
              | (False, w1) \<Rightarrow> disconnect_client cid w1)"
proof -
  obtain b w1 where s: "send (Client cid) Heartbeat w = (b, w1)" by (cases "send (Client cid) Heartbeat w")
  show ?thesis using shrinks_send[OF s] shrinks_disconnect_client[of w1 cid]
    by (cases b; simp add: s; blast intro: shrinks_trans)
qed

lemma shrinks_timeout_technician:
  "shrinks w (case send (Technician tid) Heartbeat w of (True, w1) \<Rightarrow> w1
              | (False, w1) \<Rightarrow> disconnect_technician tid w1)"
proof -
  obtain b w1 where s: "send (Technician tid) Heartbeat w = (b, w1)"
    by (cases "send (Technician tid) Heartbeat w")
  show ?thesis using shrinks_send[OF s] shrinks_disconnect_technician[of w1 tid]
    by (cases b; simp add: s; blast intro: shrinks_trans)
qed

lemma shrinks_process_technician_message: "shrinks w (process_technician_message tid msg w)"
  by (simp add: process_technician_message_def shrinks_refl shrinks_handle_control_request
      shrinks_handle_end_session)

lemma exclusive_step:
  assumes "exclusive w" "no_help_in_session x w" shows "exclusive (step x w)"
proof (cases x)
  case (Connection e s a msg)
  with assms show ?thesis by (simp add: exclusive_handle_connection)
next
  case (Client_message cid e msg)
  have "exclusive (process_client_message e cid msg w)"
    unfolding process_client_message_def
    using assms Client_message
    by (auto simp: exclusive_handle_cancel_help exclusive_handle_control_response
        intro!: exclusive_handle_help_request)
  moreover have "exclusive (disconnect_client cid w)"
    using assms(1) shrinks_disconnect_client by (rule exclusive_shrinks)
  ultimately show ?thesis using Client_message by simp
next
  case (Client_timeout cid)
  then show ?thesis
    using assms(1) shrinks_timeout_client[of w cid] shrinks_disconnect_client[of w cid]
    by (auto intro: exclusive_shrinks)
next
  case (Client_read_failure cid)
  then show ?thesis using assms(1) shrinks_disconnect_client[of w cid]
    by (auto intro: exclusive_shrinks)
next
  case (Technician_message tid msg)
  then show ?thesis
    using assms(1) shrinks_process_technician_message[of w tid msg]
      shrinks_disconnect_technician[of w tid]
    by (auto intro: exclusive_shrinks)
next
  case (Technician_timeout tid)
  then show ?thesis
    using assms(1) shrinks_timeout_technician[of w tid] shrinks_disconnect_technician[of w tid]
    by (auto intro: exclusive_shrinks)
next
  case (Technician_read_failure tid)
  then show ?thesis using assms(1) shrinks_disconnect_technician[of w tid]
    by (auto intro: exclusive_shrinks)
next
  case Heartbeat_tick
  then show ?thesis using assms(1) shrinks_heartbeat_checker[of w]
    by (auto intro: exclusive_shrinks)
qed

section \<open>Help request and session are exclusive\<close>

lemma exclusive_run:
  "exclusive w \<Longrightarrow> guarded no_help_in_session ops w \<Longrightarrow> exclusive (run ops w)"
  by (induction ops arbitrary: w) (auto intro: exclusive_step)

text \<open>
  C1, as stated: in every state reached from the empty broker, no registered client has
  both \<open>help_requested\<close> and a \<open>session_id\<close>.  This fails: \<open>handle_help_request\<close> sets the
  flag without looking at \<open>session_id\<close>, so a client in a session that sends
  \<open>help_request\<close> has both.
\<close>

theorem help_and_session_counterexample:
  "\<not> exclusive
        (run (session_ops @
                [Client_message ''c0000001'' (environment ''x0000001'') (message ''help_request'')])
           (initial []))"
  by code_simp

text \<open>
  C1, amended: the two are never both set in any state reached by a run in which a help
  request is processed only for a client whose \<open>session_id\<close> is null at that moment.
\<close>

theorem help_and_session_exclusive:
  "guarded no_help_in_session ops (initial outs) \<Longrightarrow> exclusive (run ops (initial outs))"
  by (rule exclusive_run) (simp_all add: exclusive_def initial_def)

theorem help_and_session_exclusive_witness:
  "guarded no_help_in_session
     (session_ops @
        [Technician_message ''t0000001'' (end_session_msg ''s0000001''),
         Client_message ''c0000001'' (environment ''x0000001'') (message ''help_request'')])
     (initial []) \<and>
   exclusive
     (run (session_ops @
             [Technician_message ''t0000001'' (end_session_msg ''s0000001''),
              Client_message ''c0000001'' (environment ''x0000001'') (message ''help_request'')])
        (initial [])) \<and>
   map_option session_id (map_of (clients (run session_ops (initial []))) ''c0000001'')
     = Some (Some ''s0000001'') \<and>
   map (\<lambda>(cid, c). (cid, help_requested c, session_id c))
     (clients
        (run (session_ops @
                [Technician_message ''t0000001'' (end_session_msg ''s0000001''),
                 Client_message ''c0000001'' (environment ''x0000001'')
                   (message ''help_request'')])
           (initial [])))
     = [(''c0000001'', True, None)]"
proof -
  have g: "guarded no_help_in_session
     (session_ops @
        [Technician_message ''t0000001'' (end_session_msg ''s0000001''),
         Client_message ''c0000001'' (environment ''x0000001'') (message ''help_request'')])
     (initial [])"
    by code_simp
  have s: "map_option session_id (map_of (clients (run session_ops (initial []))) ''c0000001'')
     = Some (Some ''s0000001'')"
    by code_simp
  have h: "map (\<lambda>(cid, c). (cid, help_requested c, session_id c))
     (clients
        (run (session_ops @
                [Technician_message ''t0000001'' (end_session_msg ''s0000001''),
                 Client_message ''c0000001'' (environment ''x0000001'')
                   (message ''help_request'')])
           (initial [])))
     = [(''c0000001'', True, None)]"
    by code_simp
  from g s h help_and_session_exclusive [OF g] show ?thesis by blast
qed

section \<open>No two sessions share a client or a technician\<close>

lemma no_shared_update:
  assumes "no_shared w"
    and "active_sessions w' =
           AList.update sid \<lparr>client_id = cid, tech_id = tid, start_time = t\<rparr> (active_sessions w)"
    and "list_all (\<lambda>(sid, s). client_id s \<noteq> cid \<and> tech_id s \<noteq> tid) (active_sessions w)"
  shows "no_shared w'"
  using assms unfolding no_shared_def
  by (auto simp: list_all_iff intro!: distinct_map_update)

lemma no_shared_handle_control_response:
  assumes "no_shared w"
    and "m_approved msg \<Longrightarrow>
           list_all (\<lambda>(sid, s). client_id s \<noteq> cid \<and> Some (tech_id s) \<noteq> m_tech_id msg)
             (active_sessions w)"
  shows "no_shared (handle_control_response e cid msg w)"
  using handle_control_response_shape[of w e cid msg]
proof (elim disjE conjE exE)
  assume "shrinks w (handle_control_response e cid msg w)"
  with assms(1) show ?thesis by (rule no_shared_shrinks)
next
  fix tid mid
  assume ap: "m_approved msg" and t: "m_tech_id msg = Some tid"
    and se: "active_sessions mid =
         AList.update (uuid e) \<lparr>client_id = cid, tech_id = tid, start_time = now e\<rparr>
           (active_sessions w)"
    and sh: "shrinks mid (handle_control_response e cid msg w)"
  from assms(2)[OF ap] t
  have "list_all (\<lambda>(sid, s). client_id s \<noteq> cid \<and> tech_id s \<noteq> tid) (active_sessions w)"
    by (auto simp: list_all_iff)
  with assms(1) se have "no_shared mid" by (rule no_shared_update)
  then show ?thesis using sh by (rule no_shared_shrinks)
qed

lemma no_shared_handle_help_request:
  assumes "no_shared w" shows "no_shared (handle_help_request e cid w)"
  using handle_help_request_shape[of e cid w] assms
  by (auto intro: no_shared_shrinks no_shared_same)

lemma no_shared_handle_cancel_help:
  assumes "no_shared w" shows "no_shared (handle_cancel_help cid w)"
  using handle_cancel_help_shape[of cid w] assms
  by (auto intro: no_shared_shrinks no_shared_same)

lemma no_shared_handle_connection:
  assumes "no_shared w" shows "no_shared (handle_connection e s a msg w)"
proof -
  have 1: "no_shared (handle_client_connection e s a msg w)"
    using handle_client_connection_shape[of e w s a msg] assms
    by (auto intro: no_shared_shrinks no_shared_same)
  have 2: "no_shared (handle_technician_connection e s a msg w)"
    using assms shrinks_handle_technician_connection by (rule no_shared_shrinks)
  have 3: "no_shared (close s w)"
    using assms by (simp add: no_shared_def close_fields)
  show ?thesis unfolding handle_connection_def using 1 2 3 by simp
qed

lemma no_shared_step:
  assumes "no_shared w" "approval_unpaired x w" shows "no_shared (step x w)"
proof (cases x)
  case (Connection e s a msg)
  with assms show ?thesis by (simp add: no_shared_handle_connection)
next
  case (Client_message cid e msg)
  have "no_shared (process_client_message e cid msg w)"
    unfolding process_client_message_def
    using assms Client_message
    by (auto simp: no_shared_handle_cancel_help no_shared_handle_help_request
        intro!: no_shared_handle_control_response)
  moreover have "no_shared (disconnect_client cid w)"
    using assms(1) shrinks_disconnect_client by (rule no_shared_shrinks)
  ultimately show ?thesis using Client_message by simp
next
  case (Client_timeout cid)
  then show ?thesis
    using assms(1) shrinks_timeout_client[of w cid] shrinks_disconnect_client[of w cid]
    by (auto intro: no_shared_shrinks)
next
  case (Client_read_failure cid)
  then show ?thesis using assms(1) shrinks_disconnect_client[of w cid]
    by (auto intro: no_shared_shrinks)
next
  case (Technician_message tid msg)
  then show ?thesis
    using assms(1) shrinks_process_technician_message[of w tid msg]
      shrinks_disconnect_technician[of w tid]
    by (auto intro: no_shared_shrinks)
next
  case (Technician_timeout tid)
  then show ?thesis
    using assms(1) shrinks_timeout_technician[of w tid] shrinks_disconnect_technician[of w tid]
    by (auto intro: no_shared_shrinks)
next
  case (Technician_read_failure tid)
  then show ?thesis using assms(1) shrinks_disconnect_technician[of w tid]
    by (auto intro: no_shared_shrinks)
next
  case Heartbeat_tick
  then show ?thesis using assms(1) shrinks_heartbeat_checker[of w]
    by (auto intro: no_shared_shrinks)
qed

lemma no_shared_run:
  "no_shared w \<Longrightarrow> guarded approval_unpaired ops w \<Longrightarrow> no_shared (run ops w)"
  by (induction ops arbitrary: w) (auto intro: no_shared_step)

text \<open>
  C2, as stated: in every state reached from the empty broker, no two active sessions have
  the same \<open>client_id\<close> and no two the same \<open>tech_id\<close>.  This fails:
  \<open>handle_control_response\<close> creates the session without looking at the existing ones, so
  a client that approves a second technician is in two sessions.
\<close>

theorem sessions_share_counterexample:
  "\<not> no_shared
        (run (session_ops @ [approve ''c0000001'' ''t0000002'' ''s0000002'']) (initial []))"
  by code_simp

text \<open>
  C2, amended: no two sessions share a client or a technician in any state reached by a run
  in which a control response is approved only while no active session refers to that
  client or to that technician.
\<close>

theorem sessions_share_nothing:
  "guarded approval_unpaired ops (initial outs) \<Longrightarrow> no_shared (run ops (initial outs))"
  by (rule no_shared_run) (simp_all add: no_shared_def initial_def)

theorem sessions_share_nothing_witness:
  "guarded approval_unpaired
     (session_ops @
        [Technician_message ''t0000001'' (end_session_msg ''s0000001''),
         approve ''c0000001'' ''t0000002'' ''s0000002''])
     (initial []) \<and>
   no_shared
     (run (session_ops @
        [Technician_message ''t0000001'' (end_session_msg ''s0000001''),
         approve ''c0000001'' ''t0000002'' ''s0000002''])
        (initial [])) \<and>
   map fst (active_sessions (run (session_ops @
        [Technician_message ''t0000001'' (end_session_msg ''s0000001''),
         approve ''c0000001'' ''t0000002'' ''s0000002''])
        (initial []))) = [''s0000002'']"
proof -
  have g: "guarded approval_unpaired
     (session_ops @
        [Technician_message ''t0000001'' (end_session_msg ''s0000001''),
         approve ''c0000001'' ''t0000002'' ''s0000002''])
     (initial [])"
    by code_simp
  have k: "map fst (active_sessions (run (session_ops @
        [Technician_message ''t0000001'' (end_session_msg ''s0000001''),
         approve ''c0000001'' ''t0000002'' ''s0000002''])
        (initial []))) = [''s0000002'']"
    by code_simp
  from g k sessions_share_nothing [OF g] show ?thesis by blast
qed

section \<open>Disconnecting an id that is not registered\<close>

lemma shrinks_keeps_absent:
  "shrinks w w' \<Longrightarrow> \<not> has_key k (clients w) \<Longrightarrow> \<not> has_key k (clients w')"
  unfolding shrinks_def has_key_iff by force

lemma disconnect_client_removes: "\<not> has_key cid (clients (disconnect_client cid w))"
proof (cases "map_of (clients w) cid")
  case None
  then show ?thesis by (simp add: disconnect_client_def has_key_def)
next
  case (Some client)
  show ?thesis
    unfolding disconnect_client_def Let_def Some option.case
    by (rule shrinks_keeps_absent[OF shrinks_broadcast])
      (simp add: has_key_delete close_fields)
qed

lemma disconnect_technician_removes:
  "\<not> has_key tid (technicians (disconnect_technician tid w))"
  by (simp add: technicians_disconnect_technician has_key_delete)

text \<open>
  C10. For an id that is not a key of its registry, \<open>disconnect_client\<close> and
  \<open>disconnect_technician\<close> return the broker state they were given.  After either
  function the id is not registered, so a second call for the same id changes nothing.
\<close>

theorem disconnect_absent_is_noop:
  "(\<not> has_key cid (clients w) \<longrightarrow> disconnect_client cid w = w) \<and>
   (\<not> has_key tid (technicians w) \<longrightarrow> disconnect_technician tid w = w) \<and>
   disconnect_client cid (disconnect_client cid w) = disconnect_client cid w \<and>
   disconnect_technician tid (disconnect_technician tid w) = disconnect_technician tid w"
proof -
  have a: "\<And>c v. \<not> has_key c (clients v) \<Longrightarrow> disconnect_client c v = v"
    by (simp add: disconnect_client_def has_key_def)
  have b: "\<And>t v. \<not> has_key t (technicians v) \<Longrightarrow> disconnect_technician t v = v"
    by (simp add: disconnect_technician_def has_key_def)
  show ?thesis
    using a b disconnect_client_removes disconnect_technician_removes by blast
qed

theorem disconnect_absent_is_noop_witness:
  "\<not> has_key ''c0000009'' (clients (run session_ops (initial []))) \<and>
   \<not> has_key ''t0000009'' (technicians (run session_ops (initial []))) \<and>
   disconnect_client ''c0000009'' (run session_ops (initial [])) = run session_ops (initial []) \<and>
   disconnect_technician ''t0000009'' (run session_ops (initial [])) = run session_ops (initial []) \<and>
   has_key ''c0000001'' (clients (run session_ops (initial []))) \<and>
   disconnect_client ''c0000001'' (disconnect_client ''c0000001'' (run session_ops (initial [])))
     = disconnect_client ''c0000001'' (run session_ops (initial []))"
proof -
  have a: "\<not> has_key ''c0000009'' (clients (run session_ops (initial [])))" by code_simp
  have b: "\<not> has_key ''t0000009'' (technicians (run session_ops (initial [])))" by code_simp
  have c: "has_key ''c0000001'' (clients (run session_ops (initial [])))" by code_simp
  from a b c
    disconnect_absent_is_noop [of "''c0000009''" "run session_ops (initial [])" "''t0000009''"]
    disconnect_absent_is_noop [of "''c0000001''" "run session_ops (initial [])" "''t0000009''"]
  show ?thesis by blast
qed

section \<open>Disconnecting a client that is in a session\<close>

text \<open>
  C3. The claim: disconnecting a client whose \<open>session_id\<close> is a key of
  \<open>active_sessions\<close> removes that session and resets the \<open>assigned_client\<close> of the
  session's technician.  \<open>disconnect_client\<close> deletes the session and only then reads it
  with \<open>active_sessions.get\<close> to find the technician, so it finds none: in the run below
  the session is gone and the technician is still assigned to the client.
\<close>

theorem client_disconnect_keeps_assignment:
  "map_option session_id (map_of (clients (run session_ops (initial []))) ''c0000001'')
     = Some (Some ''s0000001'') \<and>
   map_option tech_id (map_of (active_sessions (run session_ops (initial []))) ''s0000001'')
     = Some ''t0000001'' \<and>
   active_sessions (disconnect_client ''c0000001'' (run session_ops (initial []))) = [] \<and>
   map_option assigned_client
     (map_of (technicians (disconnect_client ''c0000001'' (run session_ops (initial []))))
        ''t0000001'')
     = Some (Some ''c0000001'')"
  by code_simp

section \<open>An end of session sent by the client\<close>

text \<open>
  C5. The claim: an \<open>end_session\<close> message with the id of an active session removes the
  session and clears both pointers, whether the technician or the client sends it.
  \<open>process_client_message\<close> has no branch for \<open>end_session\<close>: sent by the client of the
  session, the message leaves the broker state as it was, while the same message sent by
  the technician removes the session.
\<close>

theorem client_end_session_ignored:
  "has_key ''c0000001'' (clients (run session_ops (initial []))) \<and>
   has_key ''s0000001'' (active_sessions (run session_ops (initial []))) \<and>
   step (Client_message ''c0000001'' (environment ''x0000001'') (end_session_msg ''s0000001''))
     (run session_ops (initial []))
     = run session_ops (initial []) \<and>
   active_sessions
     (step (Technician_message ''t0000001'' (end_session_msg ''s0000001''))
        (run session_ops (initial []))) = []"
  by code_simp

section \<open>Frames survive any chunking of the stream\<close>

lemma recv_all_loop_chunks:
  assumes "\<forall>c\<in>set cs. c \<noteq> []" "n \<le> length acc + length (concat cs)"
  shows "\<exists>cs'. recv_all_loop n acc (map Chunk cs) =
            (Some (acc @ take (n - length acc) (concat cs)), map Chunk cs') \<and>
          (\<forall>c\<in>set cs'. c \<noteq> []) \<and> concat cs' = drop (n - length acc) (concat cs)"
  using assms
proof (induction cs arbitrary: acc)
  case Nil
  then show ?case by (subst recv_all_loop.simps) simp
next
  case (Cons c cs)
  show ?case
  proof (cases "length acc < n")
    case False
    then show ?thesis using Cons.prems
      by (subst recv_all_loop.simps) (auto intro!: exI[of _ "c # cs"])
  next
    case True
    from Cons.prems have c: "c \<noteq> []" and cs: "\<forall>c\<in>set cs. c \<noteq> []" by auto
    show ?thesis
    proof (cases "length c \<le> n - length acc")
      case le: True
      have "n \<le> length (acc @ c) + length (concat cs)" using Cons.prems(2) by simp
      from Cons.IH[OF cs this] obtain cs' where
        r: "recv_all_loop n (acc @ c) (map Chunk cs) =
              (Some ((acc @ c) @ take (n - length (acc @ c)) (concat cs)), map Chunk cs')"
        and ne: "\<forall>c\<in>set cs'. c \<noteq> []"
        and dr: "concat cs' = drop (n - length (acc @ c)) (concat cs)"
        by blast
      have "recv_all_loop n acc (map Chunk (c # cs)) = recv_all_loop n (acc @ c) (map Chunk cs)"
        using True le c by (subst recv_all_loop.simps) simp
      with r ne dr le show ?thesis
        by (intro exI[of _ cs']) (simp add: diff_diff_eq)
    next
      case gt: False
      let ?k = "n - length acc"
      have "recv_all_loop n acc (map Chunk (c # cs)) =
              recv_all_loop n (acc @ take ?k c) (Chunk (drop ?k c) # map Chunk cs)"
        using True gt c by (subst recv_all_loop.simps) simp
      also have "\<dots> = (Some (acc @ take ?k c), Chunk (drop ?k c) # map Chunk cs)"
        using True gt by (subst recv_all_loop.simps) simp
      finally have "recv_all_loop n acc (map Chunk (c # cs)) =
              (Some (acc @ take ?k (concat (c # cs))), map Chunk (drop ?k c # cs))"
        using gt by simp
      moreover have "\<forall>x\<in>set (drop ?k c # cs). x \<noteq> []" using cs gt by auto
      moreover have "concat (drop ?k c # cs) = drop ?k (concat (c # cs))" using gt by simp
      ultimately show ?thesis by blast
    qed
  qed
qed

lemma from_bytes4:
  "from_bytes [a, b, c, d] = ((unat a * 256 + unat b) * 256 + unat c) * 256 + unat d"
  by (simp add: from_bytes_def)

lemma byte_of_nat: "unat (of_nat x :: byte) = x mod 256"
  by (simp add: unat_of_nat)

lemma four_digits:
  fixes n :: nat
  assumes "n < 4294967296"
  shows "((n div 16777216 mod 256 * 256 + n div 65536 mod 256) * 256 + n div 256 mod 256) * 256
            + n mod 256 = n"
proof -
  define x1 where "x1 = n div 256"
  define x2 where "x2 = x1 div 256"
  define x3 where "x3 = x2 div 256"
  have d2: "n div 65536 = x2" unfolding x2_def x1_def by (simp add: div_mult2_eq[symmetric])
  have d3: "n div 16777216 = x3"
    unfolding x3_def x2_def x1_def by (simp add: div_mult2_eq[symmetric])
  have "x3 < 256" unfolding d3[symmetric] using assms by (simp add: less_mult_imp_div_less)
  then have m3: "x3 mod 256 = x3" by simp
  have e1: "n = x1 * 256 + n mod 256" unfolding x1_def by simp
  have e2: "x1 = x2 * 256 + x1 mod 256" unfolding x2_def by simp
  have e3: "x2 = x3 * 256 + x2 mod 256" unfolding x3_def by simp
  have "((x3 * 256 + x2 mod 256) * 256 + x1 mod 256) * 256 + n mod 256 = n"
    using e1 e2 e3 by simp
  then show ?thesis unfolding d2 d3 m3 x1_def[symmetric] .
qed

lemma from_bytes_to_bytes4:
  assumes "to_bytes4 n = Some bs" shows "length bs = 4 \<and> from_bytes bs = n"
proof -
  from assms have n: "n < 4294967296"
    and bs: "bs = [of_nat (n div 16777216), of_nat (n div 65536), of_nat (n div 256), of_nat n]"
    by (auto simp: to_bytes4_def split: if_splits)
  have "from_bytes bs =
          ((n div 16777216 mod 256 * 256 + n div 65536 mod 256) * 256 + n div 256 mod 256) * 256
            + n mod 256"
    unfolding bs from_bytes4 byte_of_nat by (rule refl)
  also have "\<dots> = n" by (rule four_digits[OF n])
  finally have "from_bytes bs = n" .
  moreover have "length bs = 4" unfolding bs by simp
  ultimately show ?thesis by blast
qed

text \<open>
  C7. A payload sent as its four-byte big-endian length followed by the payload, and cut
  by the transport into any non-empty chunks (one byte at a time included), is read back
  unchanged: \<open>_recv_all(4)\<close> returns the length bytes, they decode to the length of the
  payload, and \<open>_recv_all\<close> of that length returns the payload and leaves nothing.  For a
  non-empty payload this is what \<open>_receive_screenshots\<close> hands to the decoder.
\<close>

theorem frame_round_trip:
  assumes "send_frame data = Some stream" "concat chunks = stream" "\<forall>c\<in>set chunks. c \<noteq> []"
  shows "\<exists>size_bytes rest.
           recv_all 4 (map Chunk chunks) = (Some size_bytes, rest) \<and>
           from_bytes size_bytes = length data \<and>
           recv_all (from_bytes size_bytes) rest = (Some data, []) \<and>
           (data \<noteq> [] \<longrightarrow> receive_frame (map Chunk chunks) = (Some data, []))"
proof -
  from assms(1) obtain sb where sb: "to_bytes4 (length data) = Some sb" and st: "stream = sb @ data"
    by (auto simp: send_frame_def split: option.splits)
  from from_bytes_to_bytes4[OF sb] have l4: "length sb = 4" and fb: "from_bytes sb = length data"
    by auto
  have "4 \<le> length ([]::byte list) + length (concat chunks)" using assms(2) st l4 by simp
  from recv_all_loop_chunks[OF assms(3) this] obtain cs1 where
    r1: "recv_all 4 (map Chunk chunks) = (Some sb, map Chunk cs1)"
    and ne1: "\<forall>c\<in>set cs1. c \<noteq> []" and c1: "concat cs1 = data"
    using assms(2) st l4 by (auto simp: recv_all_def)
  have "length data \<le> length ([]::byte list) + length (concat cs1)" using c1 by simp
  from recv_all_loop_chunks[OF ne1 this] obtain cs2 where
    r2: "recv_all (length data) (map Chunk cs1) = (Some data, map Chunk cs2)"
    and ne2: "\<forall>c\<in>set cs2. c \<noteq> []" and c2: "concat cs2 = []"
    using c1 by (auto simp: recv_all_def)
  from ne2 c2 have "cs2 = []" by (cases cs2) auto
  with r2 have r2': "recv_all (length data) (map Chunk cs1) = (Some data, [])" by simp
  have "data \<noteq> [] \<longrightarrow> receive_frame (map Chunk chunks) = (Some data, [])"
    using r1 r2' fb l4 by (auto simp: receive_frame_def)
  with r1 r2' fb show ?thesis by auto
qed



theorem frame_round_trip_witness:
  "send_frame [1, 2, 3] = Some [0, 0, 0, 3, 1, 2, 3] \<and>
   concat [[0], [0], [0], [3], [1], [2], [3 :: byte]] = [0, 0, 0, 3, 1, 2, 3] \<and>
   [] \<notin> set [[0], [0], [0], [3], [1], [2], [3 :: byte]] \<and>
   receive_frame (map Chunk [[0], [0], [0], [3], [1], [2], [3]]) = (Some [1, 2, 3], [])"
proof -
  have a: "send_frame [1, 2, 3] = Some [0, 0, 0, 3, 1, 2, 3]"
    by (simp add: send_frame_def to_bytes4_def)
  have b: "concat [[0], [0], [0], [3], [1], [2], [3 :: byte]] = [0, 0, 0, 3, 1, 2, 3]" by simp
  have c: "\<forall>c\<in>set [[0], [0], [0], [3], [1], [2], [3 :: byte]]. c \<noteq> []" by simp
  from frame_round_trip [OF a b c] a b c show ?thesis by auto
qed

section \<open>One technician at a time on the client agent\<close>

lemma held_append_serve: "held (acts @ [Serve s]) = insert s (held acts)"
  by (induction acts rule: held.induct) auto

lemma held_append_close: "held (acts @ [Close_socket s]) = held acts - {s}"
  by (induction acts rule: held.induct) auto

lemma held_agent_step:
  assumes "held (actions a) \<subseteq> set_option (technician_socket a)"
  shows "held (actions (agent_step e a)) \<subseteq> set_option (technician_socket (agent_step e a))"
  using assms
  by (cases e)
    (auto simp: accept_control_connection_def agent_disconnect_technician_def
      stop_control_server_def start_control_server_def Let_def held_append_serve
      held_append_close split: option.splits)

lemma held_agent_run:
  "held (actions a) \<subseteq> set_option (technician_socket a) \<Longrightarrow>
   held (actions (agent_run es a)) \<subseteq> set_option (technician_socket (agent_run es a))"
  by (induction es arbitrary: a) (auto dest: held_agent_step simp del: agent_step.simps)

text \<open>
  C9. After any sequence of accepted connections, ended serving threads, starts and stops
  of the control server, the client agent serves at most one accepted socket; and while
  \<open>technician_socket\<close> is set, a further accepted connection is closed and nothing else
  changes: it is not served and does not replace the technician being served.
\<close>

theorem single_controller:
  "card (held (actions (agent_run es agent_initial))) \<le> 1 \<and>
   (control_running (agent_run es agent_initial) \<and>
    technician_socket (agent_run es agent_initial) \<noteq> None \<longrightarrow>
      agent_step (Incoming s addr) (agent_run es agent_initial) =
        (agent_run es agent_initial)
          \<lparr>actions := actions (agent_run es agent_initial) @ [Close_socket s]\<rparr>)"
proof -
  let ?a = "agent_run es agent_initial"
  have "held (actions agent_initial) \<subseteq> set_option (technician_socket agent_initial)"
    by (simp add: agent_initial_def)
  then have sub: "held (actions ?a) \<subseteq> set_option (technician_socket ?a)"
    by (rule held_agent_run)
  have "card (held (actions ?a)) \<le> 1"
  proof (cases "technician_socket ?a")
    case None
    with sub show ?thesis by simp
  next
    case (Some x)
    with sub have "held (actions ?a) \<subseteq> {x}" by simp
    then have "card (held (actions ?a)) \<le> card {x}" by (intro card_mono) auto
    then show ?thesis by simp
  qed
  then show ?thesis by (auto simp: accept_control_connection_def)
qed

theorem single_controller_witness:
  "control_running (agent_run [Start_server True, Incoming 5 (''10.0.0.2'', 40000)] agent_initial) \<and>
   technician_socket (agent_run [Start_server True, Incoming 5 (''10.0.0.2'', 40000)] agent_initial)
     = Some 5 \<and>
   held (actions (agent_run [Start_server True, Incoming 5 (''10.0.0.2'', 40000)] agent_initial)) = {5} \<and>
   agent_step (Incoming 6 (''10.0.0.3'', 40001))
       (agent_run [Start_server True, Incoming 5 (''10.0.0.2'', 40000)] agent_initial) =
     \<lparr>control_running = True, technician_socket = Some 5,
      technician_address = Some (''10.0.0.2'', 40000),
      actions = [Serve 5, Close_socket 6]\<rparr>"
proof -
  have a: "agent_run [Start_server True, Incoming 5 (''10.0.0.2'', 40000)] agent_initial =
     \<lparr>control_running = True, technician_socket = Some 5,
      technician_address = Some (''10.0.0.2'', 40000), actions = [Serve 5]\<rparr>"
    by (simp add: agent_initial_def start_control_server_def accept_control_connection_def)
  show ?thesis
    using single_controller [of "[Start_server True, Incoming 5 (''10.0.0.2'', 40000)]" 6
        "(''10.0.0.3'', 40001)"]
    unfolding a by simp
qed

section \<open>A failed send removes the technician\<close>

lemma drops_failed_refl: "drops_failed w w"
  by (simp add: drops_failed_def)

lemma drops_failed_trans:
  assumes "drops_failed a b" "drops_failed b c" shows "drops_failed a c"
proof -
  from assms(1) obtain es1 where 1: "trace b = trace a @ es1"
    "\<forall>t m. Send (Technician t) m False \<in> set es1 \<longrightarrow> \<not> has_key t (technicians b)"
    "\<forall>t. has_key t (technicians b) \<longrightarrow> has_key t (technicians a)"
    unfolding drops_failed_def by blast
  from assms(2) obtain es2 where 2: "trace c = trace b @ es2"
    "\<forall>t m. Send (Technician t) m False \<in> set es2 \<longrightarrow> \<not> has_key t (technicians c)"
    "\<forall>t. has_key t (technicians c) \<longrightarrow> has_key t (technicians b)"
    unfolding drops_failed_def by blast
  have "trace c = trace a @ (es1 @ es2)" using 1(1) 2(1) by simp
  moreover have "\<forall>t m. Send (Technician t) m False \<in> set (es1 @ es2) \<longrightarrow>
                   \<not> has_key t (technicians c)"
    using 1(2) 2(2) 2(3) by auto
  moreover have "\<forall>t. has_key t (technicians c) \<longrightarrow> has_key t (technicians a)"
    using 1(3) 2(3) by blast
  ultimately show ?thesis unfolding drops_failed_def by blast
qed

lemma drops_failed_events:
  assumes "drops_failed w w'" "Send (Technician t) m False \<in> set (events_since w w')"
  shows "\<not> has_key t (technicians w')"
proof -
  from assms(1) obtain es where es: "trace w' = trace w @ es"
    "\<forall>t m. Send (Technician t) m False \<in> set es \<longrightarrow> \<not> has_key t (technicians w')"
    unfolding drops_failed_def by blast
  from es(1) have "events_since w w' = es" by (simp add: events_since_def)
  with assms(2) es(2) show ?thesis by blast
qed

lemma trace_disconnect_technician:
  "\<exists>es. trace (disconnect_technician tid w) = trace w @ es \<and> (\<forall>e\<in>set es. \<exists>s. e = Close s)"
  by (auto simp: disconnect_technician_def Let_def close_fields split: option.splits)

lemma drops_failed_disconnect_technician: "drops_failed w (disconnect_technician tid w)"
  using trace_disconnect_technician[of tid w]
  unfolding drops_failed_def
  by (auto simp: technicians_disconnect_technician has_key_delete)

lemma drops_failed_send_client: "send (Client c) m w = (b, w') \<Longrightarrow> drops_failed w w'"
  by (drule send_fields) (simp add: drops_failed_def)

lemma drops_failed_send_ok: "send p m w = (True, w') \<Longrightarrow> drops_failed w w'"
  by (drule send_fields) (simp add: drops_failed_def)

lemma drops_failed_send_fail:
  assumes "send (Technician t) m w = (False, w')"
  shows "drops_failed w (disconnect_technician t w')"
proof -
  from send_fields[OF assms] have tr: "trace w' = trace w @ [Send (Technician t) m False]"
    and te: "technicians w' = technicians w" by auto
  obtain es where es: "trace (disconnect_technician t w') = trace w' @ es"
    "\<forall>e\<in>set es. \<exists>s. e = Close s"
    using trace_disconnect_technician[of t w'] by blast
  have "trace (disconnect_technician t w') = trace w @ (Send (Technician t) m False # es)"
    using tr es(1) by simp
  moreover have "\<forall>t' m'. Send (Technician t') m' False \<in> set (Send (Technician t) m False # es)
      \<longrightarrow> \<not> has_key t' (technicians (disconnect_technician t w'))"
    using es(2) by (auto simp: technicians_disconnect_technician has_key_delete)
  moreover have "\<forall>t'. has_key t' (technicians (disconnect_technician t w')) \<longrightarrow>
      has_key t' (technicians w)"
    by (simp add: technicians_disconnect_technician has_key_delete te)
  ultimately show ?thesis unfolding drops_failed_def by blast
qed

lemma drops_failed_send_technician:
  "drops_failed w (case send (Technician t) m w of (True, w1) \<Rightarrow> w1
                     | (False, w1) \<Rightarrow> disconnect_technician t w1)"
proof -
  obtain b w1 where s: "send (Technician t) m w = (b, w1)" by (cases "send (Technician t) m w")
  show ?thesis
    using drops_failed_send_ok[of "Technician t" m w w1] drops_failed_send_fail[of t m w w1] s
    by (cases b) auto
qed

lemma drops_failed_broadcast_loop: "drops_failed w (broadcast_loop m ex snap w)"
proof (induction snap arbitrary: w)
  case Nil
  show ?case by (simp add: drops_failed_refl)
next
  case (Cons a snap)
  obtain tid tech where a: "a = (tid, tech)" by (cases a)
  obtain b w1 where s: "send (Technician tid) m w = (b, w1)" by (cases "send (Technician tid) m w")
  show ?case
    using Cons.IH[of w] Cons.IH[of w1] Cons.IH[of "disconnect_technician tid w1"]
      drops_failed_send_ok[of "Technician tid" m w w1] drops_failed_send_fail[of tid m w w1]
    by (cases b; simp add: a s; blast intro: drops_failed_trans)
qed

lemma drops_failed_broadcast: "drops_failed w (broadcast_to_technicians m ex w)"
  by (simp add: broadcast_to_technicians_def drops_failed_broadcast_loop)

lemma drops_failed_quiet:
  assumes "trace w' = trace w @ es" "\<forall>e\<in>set es. \<exists>s. e = Close s"
    "\<forall>t. has_key t (technicians w') \<longrightarrow> has_key t (technicians w)"
  shows "drops_failed w w'"
  using assms unfolding drops_failed_def by auto

lemma drops_failed_disconnect_client: "drops_failed w (disconnect_client cid w)"
proof (cases "map_of (clients w) cid")
  case None
  then show ?thesis by (simp add: disconnect_client_def drops_failed_refl)
next
  case (Some client)
  show ?thesis
    unfolding disconnect_client_def Let_def Some option.case
    apply (rule drops_failed_trans[OF _ drops_failed_broadcast])
    apply (rule drops_failed_quiet[where es = "[Close (c_socket client)]"])
      apply (auto simp: close_fields has_key_map_entry split: option.splits)
    done
qed

lemma drops_failed_heartbeat_clients: "drops_failed w (heartbeat_clients ks w)"
proof (induction ks arbitrary: w)
  case Nil
  show ?case by (simp add: drops_failed_refl)
next
  case (Cons cid ks)
  obtain b w1 where s: "send (Client cid) Heartbeat w = (b, w1)"
    by (cases "send (Client cid) Heartbeat w")
  show ?case
    using Cons.IH[of w1] Cons.IH[of "disconnect_client cid w1"] Cons.IH[of "disconnect_client cid w"]
      drops_failed_send_client[OF s] drops_failed_disconnect_client[of w1 cid]
      drops_failed_disconnect_client[of w cid]
    by (cases b; simp add: s; blast intro: drops_failed_trans)
qed

lemma drops_failed_heartbeat_technicians: "drops_failed w (heartbeat_technicians ks w)"
proof (induction ks arbitrary: w)
  case Nil
  show ?case by (simp add: drops_failed_refl)
next
  case (Cons tid ks)
  show ?case
    using Cons.IH[of "case send (Technician tid) Heartbeat w of (True, w1) \<Rightarrow> w1
                     | (False, w1) \<Rightarrow> disconnect_technician tid w1"]
      Cons.IH[of "disconnect_technician tid w"]
      drops_failed_send_technician[of w tid Heartbeat] drops_failed_disconnect_technician[of w tid]
    by (auto split: prod.splits bool.splits intro: drops_failed_trans)
qed

lemma drops_failed_heartbeat_checker: "drops_failed w (heartbeat_checker w)"
  unfolding heartbeat_checker_def Let_def
  by (blast intro: drops_failed_trans drops_failed_heartbeat_clients
      drops_failed_heartbeat_technicians)

lemma broadcast_loop_recipients:
  "\<exists>es. trace (broadcast_loop m ex snap w) = trace w @ es \<and>
     (\<forall>t m' b. Send (Technician t) m' b \<in> set es \<longrightarrow>
        t \<in> fst ` set snap \<and> \<not> (truthy ex \<and> Some t = ex))"
proof (induction snap arbitrary: w)
  case Nil
  show ?case by simp
next
  case (Cons a snap)
  obtain tid tech where a: "a = (tid, tech)" by (cases a)
  obtain b w1 where s: "send (Technician tid) m w = (b, w1)" by (cases "send (Technician tid) m w")
  from send_fields[OF s] have tr: "trace w1 = trace w @ [Send (Technician tid) m b]" by simp
  obtain es0 where d: "trace (disconnect_technician tid w1) = trace w1 @ es0"
    "\<forall>e\<in>set es0. \<exists>s. e = Close s"
    using trace_disconnect_technician[of tid w1] by blast
  show ?case
  proof (cases "truthy ex \<and> Some tid = ex")
    case True
    with Cons.IH[of w] show ?thesis by (auto simp: a)
  next
    case False
    show ?thesis
    proof (cases b)
      case True
      from Cons.IH[of w1] obtain es where
        "trace (broadcast_loop m ex snap w1) = trace w1 @ es"
        "\<forall>t m' b. Send (Technician t) m' b \<in> set es \<longrightarrow>
            t \<in> fst ` set snap \<and> \<not> (truthy ex \<and> Some t = ex)" by blast
      with False True tr show ?thesis
        by (intro exI[of _ "Send (Technician tid) m b # es"]) (auto simp: a s)
    next
      case b: False
      from Cons.IH[of "disconnect_technician tid w1"] obtain es where
        "trace (broadcast_loop m ex snap (disconnect_technician tid w1)) =
           trace (disconnect_technician tid w1) @ es"
        "\<forall>t m' b. Send (Technician t) m' b \<in> set es \<longrightarrow>
            t \<in> fst ` set snap \<and> \<not> (truthy ex \<and> Some t = ex)" by blast
      with False b tr d show ?thesis
        by (intro exI[of _ "Send (Technician tid) m b # es0 @ es"]) (auto simp: a s)
    qed
  qed
qed

lemma failed_technicians_append:
  "failed_technicians (es @ es') = failed_technicians es @ failed_technicians es'"
  by (induction es rule: failed_technicians.induct) simp_all

lemma failed_technicians_closes:
  "\<forall>e\<in>set es. \<exists>s. e = Close s \<Longrightarrow> failed_technicians es = []"
  by (induction es) auto

lemma filter_is_close_closes:
  "\<forall>e\<in>set es. \<exists>s. e = Close s \<Longrightarrow> filter is_close es = es"
  by (induction es) auto

lemma dictionaries_send: "send p m w = (b, w') \<Longrightarrow> dictionaries w' = dictionaries w"
  by (drule send_fields) (simp add: dictionaries_def)

lemma disconnect_technician_cong:
  assumes "dictionaries v = dictionaries w"
  shows "\<exists>es. trace (disconnect_technician t w) = trace w @ es \<and>
              trace (disconnect_technician t v) = trace v @ es \<and>
              (\<forall>e\<in>set es. \<exists>s. e = Close s) \<and>
              dictionaries (disconnect_technician t v) = dictionaries (disconnect_technician t w)"
  using assms
  by (auto simp: disconnect_technician_def dictionaries_def Let_def close_def
      split: option.splits)

lemma disconnect_technician_absent:
  "\<not> has_key t (technicians w) \<Longrightarrow> disconnect_technician t w = w"
  by (simp add: disconnect_technician_def has_key_def)

lemma broadcast_loop_read_failures:
  assumes "dictionaries v = dictionaries w"
  shows "\<exists>es. trace (broadcast_loop m ex snap w) = trace w @ es \<and>
     dictionaries (broadcast_loop m ex snap w) =
       dictionaries (run (map Technician_read_failure (failed_technicians es)) v) \<and>
     trace (run (map Technician_read_failure (failed_technicians es)) v) =
       trace v @ filter is_close es"
  using assms
proof (induction snap arbitrary: w v)
  case Nil
  then show ?case by simp
next
  case (Cons a snap)
  obtain tid tech where a: "a = (tid, tech)" by (cases a)
  obtain b w1 where s: "send (Technician tid) m w = (b, w1)" by (cases "send (Technician tid) m w")
  from send_fields[OF s] have tr: "trace w1 = trace w @ [Send (Technician tid) m b]" by simp
  from dictionaries_send[OF s] Cons.prems have d1: "dictionaries v = dictionaries w1" by simp
  show ?case
  proof (cases "truthy ex \<and> Some tid = ex")
    case True
    with Cons.IH[OF Cons.prems] show ?thesis by (simp add: a)
  next
    case False
    show ?thesis
    proof (cases b)
      case True
      from Cons.IH[OF d1] obtain es where es:
        "trace (broadcast_loop m ex snap w1) = trace w1 @ es"
        "dictionaries (broadcast_loop m ex snap w1) =
           dictionaries (run (map Technician_read_failure (failed_technicians es)) v)"
        "trace (run (map Technician_read_failure (failed_technicians es)) v) =
           trace v @ filter is_close es" by blast
      have l: "broadcast_loop m ex (a # snap) w = broadcast_loop m ex snap w1"
        using False True by (auto simp: a s)
      show ?thesis
        unfolding l using es tr True
        by (intro exI[of _ "Send (Technician tid) m True # es"]) simp
    next
      case b: False
      let ?w2 = "disconnect_technician tid w1" and ?v2 = "disconnect_technician tid v"
      from disconnect_technician_cong[OF d1, of tid] obtain es0 where es0:
        "trace ?w2 = trace w1 @ es0" "trace ?v2 = trace v @ es0"
        "\<forall>e\<in>set es0. \<exists>s. e = Close s" "dictionaries ?v2 = dictionaries ?w2" by blast
      from Cons.IH[OF es0(4)] obtain es where es:
        "trace (broadcast_loop m ex snap ?w2) = trace ?w2 @ es"
        "dictionaries (broadcast_loop m ex snap ?w2) =
           dictionaries (run (map Technician_read_failure (failed_technicians es)) ?v2)"
        "trace (run (map Technician_read_failure (failed_technicians es)) ?v2) =
           trace ?v2 @ filter is_close es" by blast
      have l: "broadcast_loop m ex (a # snap) w = broadcast_loop m ex snap ?w2"
        using False b by (auto simp: a s)
      have f: "failed_technicians (Send (Technician tid) m False # es0 @ es) =
                 tid # failed_technicians es"
        by (simp add: failed_technicians_append failed_technicians_closes[OF es0(3)])
      have c: "filter is_close (Send (Technician tid) m False # es0 @ es) =
                 es0 @ filter is_close es"
        by (simp add: filter_is_close_closes[OF es0(3)])
      show ?thesis
        unfolding l
        apply (rule exI[of _ "Send (Technician tid) m False # es0 @ es"])
        unfolding f c
        using es es0(1,2) tr b by simp
    qed
  qed
qed

lemma heartbeat_technicians_read_failures:
  assumes "dictionaries v = dictionaries w"
  shows "\<exists>es. trace (heartbeat_technicians ks w) = trace w @ es \<and>
     dictionaries (heartbeat_technicians ks w) =
       dictionaries (run (map Technician_read_failure (failed_technicians es)) v) \<and>
     trace (run (map Technician_read_failure (failed_technicians es)) v) =
       trace v @ filter is_close es"
  using assms
proof (induction ks arbitrary: w v)
  case Nil
  then show ?case by simp
next
  case (Cons tid ks)
  obtain b w1 where s: "send (Technician tid) Heartbeat w = (b, w1)"
    by (cases "send (Technician tid) Heartbeat w")
  from send_fields[OF s] have tr: "trace w1 = trace w @ [Send (Technician tid) Heartbeat b]"
    by simp
  from dictionaries_send[OF s] Cons.prems have d1: "dictionaries v = dictionaries w1" by simp
  show ?case
  proof (cases "has_key tid (technicians w)")
    case False
    with Cons.IH[OF Cons.prems] show ?thesis by (simp add: disconnect_technician_absent)
  next
    case k: True
    show ?thesis
    proof (cases b)
      case True
      from Cons.IH[OF d1] obtain es where es:
        "trace (heartbeat_technicians ks w1) = trace w1 @ es"
        "dictionaries (heartbeat_technicians ks w1) =
           dictionaries (run (map Technician_read_failure (failed_technicians es)) v)"
        "trace (run (map Technician_read_failure (failed_technicians es)) v) =
           trace v @ filter is_close es" by blast
      have l: "heartbeat_technicians (tid # ks) w = heartbeat_technicians ks w1"
        using k True by (simp add: s)
      show ?thesis
        unfolding l using es tr True
        by (intro exI[of _ "Send (Technician tid) Heartbeat True # es"]) simp
    next
      case b: False
      let ?w2 = "disconnect_technician tid w1" and ?v2 = "disconnect_technician tid v"
      from disconnect_technician_cong[OF d1, of tid] obtain es0 where es0:
        "trace ?w2 = trace w1 @ es0" "trace ?v2 = trace v @ es0"
        "\<forall>e\<in>set es0. \<exists>s. e = Close s" "dictionaries ?v2 = dictionaries ?w2" by blast
      from Cons.IH[OF es0(4)] obtain es where es:
        "trace (heartbeat_technicians ks ?w2) = trace ?w2 @ es"
        "dictionaries (heartbeat_technicians ks ?w2) =
           dictionaries (run (map Technician_read_failure (failed_technicians es)) ?v2)"
        "trace (run (map Technician_read_failure (failed_technicians es)) ?v2) =
           trace ?v2 @ filter is_close es" by blast
      have l: "heartbeat_technicians (tid # ks) w = heartbeat_technicians ks ?w2"
        using k b by (simp add: s)
      have f: "failed_technicians (Send (Technician tid) Heartbeat False # es0 @ es) =
                 tid # failed_technicians es"
        by (simp add: failed_technicians_append failed_technicians_closes[OF es0(3)])
      have c: "filter is_close (Send (Technician tid) Heartbeat False # es0 @ es) =
                 es0 @ filter is_close es"
        by (simp add: filter_is_close_closes[OF es0(3)])
      show ?thesis
        unfolding l
        apply (rule exI[of _ "Send (Technician tid) Heartbeat False # es0 @ es"])
        unfolding f c
        using es es0(1,2) tr b by simp
    qed
  qed
qed

lemma same_as_read_failuresI:
  assumes "trace w' = trace w @ es"
    "dictionaries w' = dictionaries (run (map Technician_read_failure (failed_technicians es)) w)"
    "trace (run (map Technician_read_failure (failed_technicians es)) w) =
       trace w @ filter is_close es"
  shows "same_as_read_failures w w'"
proof -
  have e: "events_since w w' = es" using assms(1) by (simp add: events_since_def)
  show ?thesis
    unfolding same_as_read_failures_def Let_def e
    using assms(2,3) by (simp add: events_since_def)
qed

lemma same_as_read_failures_broadcast:
  "same_as_read_failures w (broadcast_to_technicians m ex w)"
  using broadcast_loop_read_failures[OF refl, of m ex "technicians w" w]
  unfolding broadcast_to_technicians_def
  by (blast intro: same_as_read_failuresI)

lemma same_as_read_failures_heartbeat:
  "same_as_read_failures (heartbeat_clients (map fst (clients w)) w) (heartbeat_checker w)"
  using heartbeat_technicians_read_failures[OF refl,
      of "map fst (technicians (heartbeat_clients (map fst (clients w)) w))"
         "heartbeat_clients (map fst (clients w)) w"]
  unfolding heartbeat_checker_def Let_def
  by (blast intro: same_as_read_failuresI)

lemma same_as_read_failures_timeout:
  "same_as_read_failures w (step (Technician_timeout t) w)"
  using heartbeat_technicians_read_failures[OF refl, of "[t]" w]
  by (auto intro: same_as_read_failuresI split: prod.splits bool.splits)

text \<open>
  C8. If a send to a technician fails during \<open>broadcast_to_technicians\<close> or during a
  pass of \<open>heartbeat_checker\<close> (its heartbeats and the broadcasts of the client disconnects
  it causes), that technician is not in the registry when the operation returns, and a
  technician that is not in the registry is sent nothing by a broadcast.  The clean-up is
  that of a failed read: after a broadcast, after the heartbeats to the technicians in a
  pass of \<open>heartbeat_checker\<close>, and after the heartbeat that a connection thread sends on
  a read timeout, the four dictionaries are those that the failed reads of the technicians
  to whom a send failed would have left (the session of each is deleted, its client's
  \<open>session_id\<close> reset, the technician unregistered), and the same sockets have been closed
  in the same order.
\<close>

theorem failed_send_removes_technician:
  "(Send (Technician t) m' False \<in> set (events_since w (broadcast_to_technicians m ex w)) \<longrightarrow>
      \<not> has_key t (technicians (broadcast_to_technicians m ex w))) \<and>
   (Send (Technician t) m' False \<in> set (events_since w (heartbeat_checker w)) \<longrightarrow>
      \<not> has_key t (technicians (heartbeat_checker w))) \<and>
   (\<not> has_key t (technicians w) \<longrightarrow>
      Send (Technician t) m' b \<notin> set (events_since w (broadcast_to_technicians m ex w))) \<and>
   same_as_read_failures w (broadcast_to_technicians m ex w) \<and>
   same_as_read_failures (heartbeat_clients (map fst (clients w)) w) (heartbeat_checker w) \<and>
   same_as_read_failures w (step (Technician_timeout t) w)"
proof -
  obtain es where es: "trace (broadcast_to_technicians m ex w) = trace w @ es"
    "\<forall>t m' b. Send (Technician t) m' b \<in> set es \<longrightarrow> t \<in> fst ` set (technicians w)"
    using broadcast_loop_recipients[of m ex "technicians w" w]
    unfolding broadcast_to_technicians_def by blast
  have "\<not> has_key t (technicians w) \<longrightarrow>
      Send (Technician t) m' b \<notin> set (events_since w (broadcast_to_technicians m ex w))"
    using es by (auto simp: events_since_def has_key_iff)
  then show ?thesis
    using drops_failed_events[OF drops_failed_broadcast]
      drops_failed_events[OF drops_failed_heartbeat_checker]
      same_as_read_failures_broadcast[of w m ex] same_as_read_failures_heartbeat[of w]
      same_as_read_failures_timeout[of w t]
    by blast
qed

theorem failed_send_removes_technician_witness:
  "Send (Technician ''t0000002'') (Help_cancelled ''c0000001'') False
     \<in> set (events_since two_technicians
          (broadcast_to_technicians (Help_cancelled ''c0000001'') None two_technicians)) \<and>
   has_key ''t0000002'' (technicians two_technicians) \<and>
   \<not> has_key ''t0000002''
       (technicians (broadcast_to_technicians (Help_cancelled ''c0000001'') None two_technicians)) \<and>
   Send (Technician ''t0000001'') Heartbeat False
     \<in> set (events_since two_technicians (heartbeat_checker two_technicians)) \<and>
   has_key ''t0000001'' (technicians two_technicians) \<and>
   \<not> has_key ''t0000001'' (technicians (heartbeat_checker two_technicians)) \<and>
   \<not> has_key ''t0000009'' (technicians two_technicians) \<and>
   Send (Technician ''t0000009'') (Help_cancelled ''c0000001'') True
     \<notin> set (events_since two_technicians
          (broadcast_to_technicians (Help_cancelled ''c0000001'') None two_technicians)) \<and>
   map fst (active_sessions session_send_fails) = [''s0000001''] \<and>
   map (\<lambda>(cid, c). (cid, session_id c)) (clients session_send_fails) =
     [(''c0000001'', Some ''s0000001'')] \<and>
   events_since session_send_fails
       (broadcast_to_technicians (Help_cancelled ''c0000001'') None session_send_fails) =
     [Send (Technician ''t0000001'') (Help_cancelled ''c0000001'') False, Close 2,
      Send (Technician ''t0000002'') (Help_cancelled ''c0000001'') True] \<and>
   same_as_read_failures session_send_fails
     (broadcast_to_technicians (Help_cancelled ''c0000001'') None session_send_fails) \<and>
   dictionaries (broadcast_to_technicians (Help_cancelled ''c0000001'') None session_send_fails) =
     dictionaries (step (Technician_read_failure ''t0000001'') session_send_fails) \<and>
   active_sessions
       (broadcast_to_technicians (Help_cancelled ''c0000001'') None session_send_fails) = [] \<and>
   map (\<lambda>(cid, c). (cid, session_id c))
       (clients (broadcast_to_technicians (Help_cancelled ''c0000001'') None session_send_fails)) =
     [(''c0000001'', None)] \<and>
   map fst (technicians
       (broadcast_to_technicians (Help_cancelled ''c0000001'') None session_send_fails)) =
     [''t0000002''] \<and>
   events_since (session_send_fails\<lparr>outcomes := [True, False]\<rparr>)
       (heartbeat_checker (session_send_fails\<lparr>outcomes := [True, False]\<rparr>)) =
     [Send (Client ''c0000001'') Heartbeat True,
      Send (Technician ''t0000001'') Heartbeat False, Close 2,
      Send (Technician ''t0000002'') Heartbeat True] \<and>
   same_as_read_failures
     (heartbeat_clients (map fst (clients (session_send_fails\<lparr>outcomes := [True, False]\<rparr>)))
        (session_send_fails\<lparr>outcomes := [True, False]\<rparr>))
     (heartbeat_checker (session_send_fails\<lparr>outcomes := [True, False]\<rparr>)) \<and>
   dictionaries (heartbeat_checker (session_send_fails\<lparr>outcomes := [True, False]\<rparr>)) =
     dictionaries (step (Technician_read_failure ''t0000001'') session_send_fails) \<and>
   active_sessions (heartbeat_checker (session_send_fails\<lparr>outcomes := [True, False]\<rparr>)) = []"
  (is "?A \<and> ?B \<and> ?C \<and> ?D \<and> ?E \<and> ?F \<and> ?G \<and> ?H \<and> ?I \<and> ?J \<and> ?K \<and> ?L \<and> ?M \<and> ?N \<and> ?O \<and> ?P \<and>
         ?Q \<and> ?R \<and> ?S \<and> ?T")
proof -
  have a: ?A by code_simp
  have b: ?B by code_simp
  have d: ?D by code_simp
  have e: ?E by code_simp
  have g: ?G by code_simp
  have i: ?I by code_simp
  have j: ?J by code_simp
  have k: ?K by code_simp
  have m: ?M by code_simp
  have n: ?N by code_simp
  have o: ?O by code_simp
  have p: ?P by code_simp
  have q: ?Q by code_simp
  have s: ?S by code_simp
  have t: ?T by code_simp
  have c: ?C
    using a
      failed_send_removes_technician [of "''t0000002''" "Help_cancelled ''c0000001''"
        two_technicians "Help_cancelled ''c0000001''" None True]
    by blast
  have f: ?F
    using d
      failed_send_removes_technician [of "''t0000001''" Heartbeat
        two_technicians "Help_cancelled ''c0000001''" None True]
    by blast
  have h: ?H
    using g
      failed_send_removes_technician [of "''t0000009''" "Help_cancelled ''c0000001''"
        two_technicians "Help_cancelled ''c0000001''" None True]
    by blast
  have l: ?L
    using failed_send_removes_technician [of "''t0000001''" "Help_cancelled ''c0000001''"
        session_send_fails "Help_cancelled ''c0000001''" None True]
    by blast
  have r: ?R
    using failed_send_removes_technician [of "''t0000001''" Heartbeat
        "session_send_fails\<lparr>outcomes := [True, False]\<rparr>" Heartbeat None True]
    by blast
  show ?thesis
    by (intro conjI a b c d e f g h i j k l m n o p q r s t)
qed

section \<open>The closing broadcast of an approval\<close>












section \<open>Reachable states are well formed\<close>































section \<open>What an approval does\<close>




end
